theory Spec2Isabelle
  imports Complex_Main "HOL-Library.Word"
begin

text \<open>
  The containers of \<open>mirheo/core/containers.h\<close>: \<open>DeviceBuffer\<close> (device memory),
  \<open>HostBuffer\<close> (pinned host memory) and \<open>PinnedBuffer\<close> (both). The growth policy comes
  first, then the CUDA runtime the containers run on, then the three classes, member
  function by member function, and the properties claimed of them. Logging (\<open>debug4\<close>)
  has no effect on the state and is left out.
\<close>

section \<open>The growth policy\<close>

text \<open>
  \<open>_resize\<close> computes, in all three classes,
  \<^verbatim>\<open>static_cast<size_t>(std::ceil(1.1 * static_cast<double>(n) + 10.0))\<close>
  in IEEE 754 double precision: the conversion of \<open>n\<close>, the product and the sum are each
  rounded to the nearest double, ties to even. The doubles that occur are \<open>0\<close> or at
  least \<open>1\<close>, hence multiples of \<open>2 ^ -52\<close>; a double is written here as the natural number
  of such units. Rounding to 53 significant bits does not depend on the unit.
  \<open>mant_1_1\<close> is the literal \<open>1.1\<close> (the double \<open>0x1.199999999999ap+0\<close>) in these units.
  Converting a double of \<open>2 ^ 64\<close> or more to \<open>size_t\<close> is undefined behaviour (\<open>None\<close>);
  the \<open>size_t\<close> arithmetic that follows wraps at \<open>2 ^ 64\<close>.
\<close>

definition mant_1_1 :: nat where
  "mant_1_1 = 4953959590107546"

function excess_bits :: "nat \<Rightarrow> nat" where
  "excess_bits a = (if a < 2 ^ 53 then 0 else Suc (excess_bits (a div 2)))"
  by pat_completeness auto
termination
  by (relation "measure id") auto

declare excess_bits.simps [simp del]

definition round_nearest_even :: "nat \<Rightarrow> nat" where
  "round_nearest_even a =
     (let s = excess_bits a; q = a div 2 ^ s; r = a mod 2 ^ s in
      if 2 * r < 2 ^ s then q * 2 ^ s
      else if 2 * r = 2 ^ s \<and> even q then q * 2 ^ s
      else (q + 1) * 2 ^ s)"

definition conservative_estimate :: "nat \<Rightarrow> nat option" where
  "conservative_estimate n =
     (let x = round_nearest_even n;
          p = round_nearest_even (mant_1_1 * x);
          t = round_nearest_even (p + 10 * 2 ^ 52);
          c = (t + (2 ^ 52 - 1)) div 2 ^ 52
      in if c < 2 ^ 64 then Some c else None)"

definition grown_capacity :: "nat \<Rightarrow> nat option" where
  "grown_capacity n =
     map_option (\<lambda>e. (128 * (((e + 127) mod 2 ^ 64) div 128)) mod 2 ^ 64)
       (conservative_estimate n)"

section \<open>The CUDA runtime, as the containers use it\<close>

text \<open>
  The containers call the CUDA runtime and the C library; neither is code of the
  repository, so their behaviour is fixed here once, from the CUDA documentation.

  \<^item> Memory is a table of allocations. A pointer is the number of an allocation
    (the containers only ever pass the base pointers they were given), \<open>0\<close> is
    \<open>nullptr\<close>, and a new allocation always gets a number that was never used.
    Device memory and pinned host memory are two tables. An allocation is a list of
    bytes; a byte that was never written is indeterminate (\<open>None\<close>).
  \<^item> An asynchronous call (\<open>cudaMemcpyAsync\<close>, \<open>cudaMemsetAsync\<close>) only enqueues its
    work on a stream. Enqueued work of one stream runs in the order of submission, at a
    moment the caller does not control: at the latest when the stream is synchronised
    (\<open>cudaStreamSynchronize\<close>), when a blocking \<open>cudaMemcpy\<close> runs, or when memory is
    released (\<open>cudaFree\<close> and \<open>cudaFreeHost\<close> wait for the device); possibly
    earlier (\<open>device_step\<close>).
  \<^item> Work that faults when it runs (a pointer that is not allocated, a range beyond
    the allocation) leaves a sticky error, which every later runtime call returns.
  \<^item> \<open>memcpy\<close> and \<open>memset\<close> run at once on host memory; with a count of 0 they do
    nothing, whatever the pointers. Outside an allocation they are undefined behaviour.
  \<^item> \<open>cudaFree(nullptr)\<close> and \<open>cudaFreeHost(nullptr)\<close> release nothing and wait for
    nothing.
  \<^item> An allocation fails when the free memory does not suffice.
  \<^item> Byte counts \<open>sizeof(T) * n\<close> are computed without wrap-around: an allocation of
    \<open>2 ^ 64\<close> bytes or more is outside the model.
\<close>

type_synonym addr = nat
type_synonym byte = "8 word"
type_synonym cell = "byte option"
type_synonym memory = "cell list option list"
type_synonym cudaStream_t = nat

datatype fatal = CudaError | Die | UndefinedBehaviour

datatype cudaMemcpyKind =
  cudaMemcpyHostToDevice | cudaMemcpyDeviceToHost | cudaMemcpyDeviceToDevice

datatype ContainersSynch = Synch | Asynch

datatype work = Memcpy cudaMemcpyKind addr addr nat | Memset addr nat

datatype api_call =
    Call_cudaMalloc | Call_cudaFree | Call_cudaHostAlloc | Call_cudaFreeHost
  | Call_cudaMemcpyAsync cudaStream_t | Call_cudaMemsetAsync cudaStream_t
  | Call_cudaMemcpy | Call_cudaStreamSynchronize cudaStream_t

record cuda =
  dmem :: memory
  hmem :: memory
  dfree :: nat
  hfree :: nat
  pending :: "(cudaStream_t \<times> work) list"
  sticky :: bool
  calls :: "api_call list"

definition block_at :: "memory \<Rightarrow> addr \<Rightarrow> cell list option" where
  "block_at m a = (if a = 0 \<or> length m < a then None else m ! (a - 1))"

definition put_block :: "memory \<Rightarrow> addr \<Rightarrow> cell list \<Rightarrow> memory" where
  "put_block m a b = m[a - 1 := Some b]"

definition copy_cells :: "memory \<Rightarrow> addr \<Rightarrow> memory \<Rightarrow> addr \<Rightarrow> nat \<Rightarrow> memory option" where
  "copy_cells srcm src dstm dst n =
     (case block_at srcm src of
        None \<Rightarrow> None
      | Some s \<Rightarrow>
          (case block_at dstm dst of
             None \<Rightarrow> None
           | Some d \<Rightarrow>
               if n \<le> length s \<and> n \<le> length d
               then Some (put_block dstm dst (take n s @ drop n d))
               else None))"

definition zero_cells :: "memory \<Rightarrow> addr \<Rightarrow> nat \<Rightarrow> memory option" where
  "zero_cells m dst n =
     (case block_at m dst of
        None \<Rightarrow> None
      | Some d \<Rightarrow>
          if n \<le> length d then Some (put_block m dst (replicate n (Some 0) @ drop n d))
          else None)"

fun run_work :: "work \<Rightarrow> cuda \<Rightarrow> cuda" where
  "run_work (Memcpy cudaMemcpyDeviceToDevice dst src n) st =
     (case copy_cells (dmem st) src (dmem st) dst n of
        Some m \<Rightarrow> st\<lparr>dmem := m\<rparr> | None \<Rightarrow> st\<lparr>sticky := True\<rparr>)"
| "run_work (Memcpy cudaMemcpyHostToDevice dst src n) st =
     (case copy_cells (hmem st) src (dmem st) dst n of
        Some m \<Rightarrow> st\<lparr>dmem := m\<rparr> | None \<Rightarrow> st\<lparr>sticky := True\<rparr>)"
| "run_work (Memcpy cudaMemcpyDeviceToHost dst src n) st =
     (case copy_cells (dmem st) src (hmem st) dst n of
        Some m \<Rightarrow> st\<lparr>hmem := m\<rparr> | None \<Rightarrow> st\<lparr>sticky := True\<rparr>)"
| "run_work (Memset dst n) st =
     (case zero_cells (dmem st) dst n of
        Some m \<Rightarrow> st\<lparr>dmem := m\<rparr> | None \<Rightarrow> st\<lparr>sticky := True\<rparr>)"

definition drain_all :: "cuda \<Rightarrow> cuda" where
  "drain_all st = fold (\<lambda>q. run_work (snd q)) (pending st) (st\<lparr>pending := []\<rparr>)"

definition drain_stream :: "cudaStream_t \<Rightarrow> cuda \<Rightarrow> cuda" where
  "drain_stream s st =
     fold (\<lambda>q. run_work (snd q)) (filter (\<lambda>q. fst q = s) (pending st))
       (st\<lparr>pending := filter (\<lambda>q. fst q \<noteq> s) (pending st)\<rparr>)"

fun pop_stream ::
  "cudaStream_t \<Rightarrow> (cudaStream_t \<times> work) list \<Rightarrow> (work \<times> (cudaStream_t \<times> work) list) option" where
  "pop_stream s [] = None"
| "pop_stream s (q # qs) =
     (if fst q = s then Some (snd q, qs)
      else map_option (\<lambda>r. (fst r, q # snd r)) (pop_stream s qs))"

definition device_step :: "cudaStream_t \<Rightarrow> cuda \<Rightarrow> cuda" where
  "device_step s st =
     (case pop_stream s (pending st) of
        None \<Rightarrow> st
      | Some r \<Rightarrow> run_work (fst r) (st\<lparr>pending := snd r\<rparr>))"

definition background :: "cudaStream_t list \<Rightarrow> cuda \<Rightarrow> cuda" where
  "background ss st = fold device_step ss st"

text \<open>
  Modelled from the spec: \<open>CUDA_Check\<close> and \<open>die\<close> are macros of
  \<open>mirheo/core/logger.h\<close>, which is not among the sources. The spec makes every allocation
  or transfer failure, and the failed size check of the generic copy, fatal: the process
  ends with a report. An operation that ends the process returns \<open>Inl\<close>: \<open>CudaError\<close> from
  \<open>CUDA_Check\<close>, \<open>Die\<close> from \<open>die\<close>, and \<open>UndefinedBehaviour\<close> where the C++ has none
  defined.
\<close>

definition CUDA_Check :: "cuda \<Rightarrow> fatal + cuda" where
  "CUDA_Check st = (if sticky st then Inl CudaError else Inr st)"

definition logged :: "api_call \<Rightarrow> cuda \<Rightarrow> cuda" where
  "logged c st = st\<lparr>calls := calls st @ [c]\<rparr>"

definition thenDo :: "'e + 'a \<Rightarrow> ('a \<Rightarrow> 'e + 'b) \<Rightarrow> 'e + 'b" where
  "thenDo m f = (case m of Inl e \<Rightarrow> Inl e | Inr x \<Rightarrow> f x)"

definition cudaMalloc :: "nat \<Rightarrow> cuda \<Rightarrow> fatal + (addr \<times> cuda)" where
  "cudaMalloc bytes st =
     (if sticky st \<or> dfree st < bytes then Inl CudaError
      else Inr (Suc (length (dmem st)),
                logged Call_cudaMalloc
                  (st\<lparr>dmem := dmem st @ [Some (replicate bytes None)],
                      dfree := dfree st - bytes\<rparr>)))"

definition cudaHostAlloc :: "nat \<Rightarrow> cuda \<Rightarrow> fatal + (addr \<times> cuda)" where
  "cudaHostAlloc bytes st =
     (if sticky st \<or> hfree st < bytes then Inl CudaError
      else Inr (Suc (length (hmem st)),
                logged Call_cudaHostAlloc
                  (st\<lparr>hmem := hmem st @ [Some (replicate bytes None)],
                      hfree := hfree st - bytes\<rparr>)))"

definition cudaFree :: "addr \<Rightarrow> cuda \<Rightarrow> fatal + cuda" where
  "cudaFree p st =
     (if p = 0 then CUDA_Check (logged Call_cudaFree st)
      else
        (let st1 = drain_all (logged Call_cudaFree st) in
         case block_at (dmem st1) p of
           None \<Rightarrow> Inl CudaError
         | Some b \<Rightarrow>
             CUDA_Check (st1\<lparr>dmem := (dmem st1)[p - 1 := None],
                              dfree := dfree st1 + length b\<rparr>)))"

definition cudaFreeHost :: "addr \<Rightarrow> cuda \<Rightarrow> fatal + cuda" where
  "cudaFreeHost p st =
     (if p = 0 then CUDA_Check (logged Call_cudaFreeHost st)
      else
        (let st1 = drain_all (logged Call_cudaFreeHost st) in
         case block_at (hmem st1) p of
           None \<Rightarrow> Inl CudaError
         | Some b \<Rightarrow>
             CUDA_Check (st1\<lparr>hmem := (hmem st1)[p - 1 := None],
                              hfree := hfree st1 + length b\<rparr>)))"

definition cudaMemcpyAsync ::
  "addr \<Rightarrow> addr \<Rightarrow> nat \<Rightarrow> cudaMemcpyKind \<Rightarrow> cudaStream_t \<Rightarrow> cuda \<Rightarrow> fatal + cuda" where
  "cudaMemcpyAsync dst src bytes kind stream st =
     CUDA_Check (logged (Call_cudaMemcpyAsync stream)
       (st\<lparr>pending := pending st @ [(stream, Memcpy kind dst src bytes)]\<rparr>))"

definition cudaMemsetAsync :: "addr \<Rightarrow> nat \<Rightarrow> cudaStream_t \<Rightarrow> cuda \<Rightarrow> fatal + cuda" where
  "cudaMemsetAsync dst bytes stream st =
     CUDA_Check (logged (Call_cudaMemsetAsync stream)
       (st\<lparr>pending := pending st @ [(stream, Memset dst bytes)]\<rparr>))"

definition cudaMemcpy :: "addr \<Rightarrow> addr \<Rightarrow> nat \<Rightarrow> cudaMemcpyKind \<Rightarrow> cuda \<Rightarrow> fatal + cuda" where
  "cudaMemcpy dst src bytes kind st =
     CUDA_Check (run_work (Memcpy kind dst src bytes) (drain_all (logged Call_cudaMemcpy st)))"

definition cudaStreamSynchronize :: "cudaStream_t \<Rightarrow> cuda \<Rightarrow> fatal + cuda" where
  "cudaStreamSynchronize stream st =
     CUDA_Check (drain_stream stream (logged (Call_cudaStreamSynchronize stream) st))"

definition memcpy :: "addr \<Rightarrow> addr \<Rightarrow> nat \<Rightarrow> cuda \<Rightarrow> fatal + cuda" where
  "memcpy dst src bytes st =
     (if bytes = 0 then Inr st
      else case copy_cells (hmem st) src (hmem st) dst bytes of
             Some m \<Rightarrow> Inr (st\<lparr>hmem := m\<rparr>) | None \<Rightarrow> Inl UndefinedBehaviour)"

definition memset :: "addr \<Rightarrow> nat \<Rightarrow> cuda \<Rightarrow> fatal + cuda" where
  "memset dst bytes st =
     (if bytes = 0 then Inr st
      else case zero_cells (hmem st) dst bytes of
             Some m \<Rightarrow> Inr (st\<lparr>hmem := m\<rparr>) | None \<Rightarrow> Inl UndefinedBehaviour)"

definition store_cells :: "memory \<Rightarrow> addr \<Rightarrow> nat \<Rightarrow> cell list \<Rightarrow> memory option" where
  "store_cells m p off v =
     (case block_at m p of
        None \<Rightarrow> None
      | Some d \<Rightarrow>
          if off + length v \<le> length d
          then Some (put_block m p (take off d @ v @ drop (off + length v) d))
          else None)"

definition load_cells :: "memory \<Rightarrow> addr \<Rightarrow> nat \<Rightarrow> nat \<Rightarrow> cell list option" where
  "load_cells m p off n =
     (case block_at m p of
        None \<Rightarrow> None
      | Some d \<Rightarrow> if off + n \<le> length d then Some (take n (drop off d)) else None)"


section \<open>The three containers\<close>

text \<open>
  Each class is a record of its data members; \<open>sz\<close> is \<open>sizeof(T)\<close> of the template
  argument. A member function takes the object and the runtime state and returns both,
  or \<open>Inl\<close> when the process ends. \<open>DeviceBuffer_resize_impl\<close>, \<open>HostBuffer_resize_impl\<close>
  and \<open>PinnedBuffer_resize_impl\<close> are the private \<open>_resize\<close> of each class.
\<close>

record DeviceBuffer =
  d_capacity :: nat
  d_size :: nat
  d_devptr :: addr

record HostBuffer =
  h_capacity :: nat
  h_size :: nat
  h_hostptr :: addr

record PinnedBuffer =
  p_capacity :: nat
  p_size :: nat
  p_hostptr :: addr
  p_devptr :: addr

subsection \<open>DeviceBuffer\<close>

definition DeviceBuffer_init :: DeviceBuffer where
  "DeviceBuffer_init = \<lparr>d_capacity = 0, d_size = 0, d_devptr = 0\<rparr>"

definition DeviceBuffer_resize_impl ::
  "nat \<Rightarrow> nat \<Rightarrow> cudaStream_t \<Rightarrow> bool \<Rightarrow> DeviceBuffer \<Rightarrow> cuda \<Rightarrow> fatal + (DeviceBuffer \<times> cuda)" where
  "DeviceBuffer_resize_impl sz n stream copy b st =
     (let dold = d_devptr b; oldsize = d_size b; b1 = b\<lparr>d_size := n\<rparr> in
      if d_capacity b \<ge> n then Inr (b1, st)
      else
        case grown_capacity n of
          None \<Rightarrow> Inl UndefinedBehaviour
        | Some cap \<Rightarrow>
            thenDo (cudaMalloc (sz * cap) st) (\<lambda>(p, st1).
            thenDo (if copy \<and> dold \<noteq> 0 \<and> oldsize > 0
                    then cudaMemcpyAsync p dold (sz * oldsize) cudaMemcpyDeviceToDevice stream st1
                    else Inr st1) (\<lambda>st2.
            thenDo (cudaFree dold st2) (\<lambda>st3.
            Inr (b1\<lparr>d_capacity := cap, d_devptr := p\<rparr>, st3)))))"

definition DeviceBuffer_resize ::
  "nat \<Rightarrow> nat \<Rightarrow> cudaStream_t \<Rightarrow> DeviceBuffer \<Rightarrow> cuda \<Rightarrow> fatal + (DeviceBuffer \<times> cuda)" where
  "DeviceBuffer_resize sz n stream = DeviceBuffer_resize_impl sz n stream True"

definition DeviceBuffer_resize_anew ::
  "nat \<Rightarrow> nat \<Rightarrow> DeviceBuffer \<Rightarrow> cuda \<Rightarrow> fatal + (DeviceBuffer \<times> cuda)" where
  "DeviceBuffer_resize_anew sz n = DeviceBuffer_resize_impl sz n 0 False"

definition DeviceBuffer_ctor :: "nat \<Rightarrow> nat \<Rightarrow> cuda \<Rightarrow> fatal + (DeviceBuffer \<times> cuda)" where
  "DeviceBuffer_ctor sz n st = DeviceBuffer_resize_anew sz n DeviceBuffer_init st"

definition DeviceBuffer_dtor :: "DeviceBuffer \<Rightarrow> cuda \<Rightarrow> fatal + cuda" where
  "DeviceBuffer_dtor b st = (if d_devptr b \<noteq> 0 then cudaFree (d_devptr b) st else Inr st)"

definition DeviceBuffer_clearDevice ::
  "nat \<Rightarrow> cudaStream_t \<Rightarrow> DeviceBuffer \<Rightarrow> cuda \<Rightarrow> fatal + (DeviceBuffer \<times> cuda)" where
  "DeviceBuffer_clearDevice sz stream b st =
     (if d_size b > 0
      then thenDo (cudaMemsetAsync (d_devptr b) (sz * d_size b) stream st) (\<lambda>st1. Inr (b, st1))
      else Inr (b, st))"

definition DeviceBuffer_clear ::
  "nat \<Rightarrow> cudaStream_t \<Rightarrow> DeviceBuffer \<Rightarrow> cuda \<Rightarrow> fatal + (DeviceBuffer \<times> cuda)" where
  "DeviceBuffer_clear sz stream b st = DeviceBuffer_clearDevice sz stream b st"

text \<open>
  The two \<open>copy\<close> templates: the overload is chosen by the member the source has,
  \<open>devPtr()\<close> or \<open>hostPtr()\<close>; \<open>csize\<close> and \<open>cptr\<close> are \<open>cont.size()\<close> and that pointer.
\<close>

definition DeviceBuffer_copy_devPtr ::
  "nat \<Rightarrow> nat \<Rightarrow> addr \<Rightarrow> cudaStream_t \<Rightarrow> DeviceBuffer \<Rightarrow> cuda \<Rightarrow> fatal + (DeviceBuffer \<times> cuda)" where
  "DeviceBuffer_copy_devPtr sz csize cptr stream b st =
     thenDo (DeviceBuffer_resize_anew sz csize b st) (\<lambda>(b1, st1).
       if d_size b1 > 0
       then thenDo (cudaMemcpyAsync (d_devptr b1) cptr (sz * d_size b1)
                      cudaMemcpyDeviceToDevice stream st1) (\<lambda>st2. Inr (b1, st2))
       else Inr (b1, st1))"

definition DeviceBuffer_copy_hostPtr ::
  "nat \<Rightarrow> nat \<Rightarrow> addr \<Rightarrow> cudaStream_t \<Rightarrow> DeviceBuffer \<Rightarrow> cuda \<Rightarrow> fatal + (DeviceBuffer \<times> cuda)" where
  "DeviceBuffer_copy_hostPtr sz csize cptr stream b st =
     thenDo (DeviceBuffer_resize_anew sz csize b st) (\<lambda>(b1, st1).
       if d_size b1 > 0
       then thenDo (cudaMemcpyAsync (d_devptr b1) cptr (sz * d_size b1)
                      cudaMemcpyHostToDevice stream st1) (\<lambda>st2. Inr (b1, st2))
       else Inr (b1, st1))"

definition DeviceBuffer_copy ::
  "nat \<Rightarrow> DeviceBuffer \<Rightarrow> DeviceBuffer \<Rightarrow> cuda \<Rightarrow> fatal + (DeviceBuffer \<times> cuda)" where
  "DeviceBuffer_copy sz cont b st =
     thenDo (DeviceBuffer_resize_anew sz (d_size cont) b st) (\<lambda>(b1, st1).
       if d_size b1 > 0
       then thenDo (cudaMemcpy (d_devptr b1) (d_devptr cont) (sz * d_size b1)
                      cudaMemcpyDeviceToDevice st1) (\<lambda>st2. Inr (b1, st2))
       else Inr (b1, st1))"

definition DeviceBuffer_copyFromDevice ::
  "nat \<Rightarrow> PinnedBuffer \<Rightarrow> cudaStream_t \<Rightarrow> DeviceBuffer \<Rightarrow> cuda \<Rightarrow> fatal + (DeviceBuffer \<times> cuda)" where
  "DeviceBuffer_copyFromDevice sz cont stream b st =
     thenDo (DeviceBuffer_resize_anew sz (p_size cont) b st) (\<lambda>(b1, st1).
       if d_size b1 > 0
       then thenDo (cudaMemcpyAsync (d_devptr b1) (p_devptr cont) (sz * d_size b1)
                      cudaMemcpyDeviceToDevice stream st1) (\<lambda>st2. Inr (b1, st2))
       else Inr (b1, st1))"

definition DeviceBuffer_copyFromHost ::
  "nat \<Rightarrow> PinnedBuffer \<Rightarrow> cudaStream_t \<Rightarrow> DeviceBuffer \<Rightarrow> cuda \<Rightarrow> fatal + (DeviceBuffer \<times> cuda)" where
  "DeviceBuffer_copyFromHost sz cont stream b st =
     thenDo (DeviceBuffer_resize_anew sz (p_size cont) b st) (\<lambda>(b1, st1).
       if d_size b1 > 0
       then thenDo (cudaMemcpyAsync (d_devptr b1) (p_hostptr cont) (sz * d_size b1)
                      cudaMemcpyHostToDevice stream st1) (\<lambda>st2. Inr (b1, st2))
       else Inr (b1, st1))"

text \<open>
  Move assignment \<open>a = std::move(b)\<close>. \<open>self\<close> is the test \<open>this == &b\<close>; the result is
  the new \<open>*this\<close>, the new \<open>b\<close> and the state. The move constructor assigns to the
  freshly initialised members.
\<close>

definition DeviceBuffer_move_assign ::
  "bool \<Rightarrow> DeviceBuffer \<Rightarrow> DeviceBuffer \<Rightarrow> cuda \<Rightarrow> fatal + (DeviceBuffer \<times> DeviceBuffer \<times> cuda)" where
  "DeviceBuffer_move_assign self this b st =
     (if \<not> self
      then thenDo (if d_devptr this \<noteq> 0 then cudaFree (d_devptr this) st else Inr st) (\<lambda>st1.
             Inr (\<lparr>d_capacity = d_capacity b, d_size = d_size b, d_devptr = d_devptr b\<rparr>,
                  \<lparr>d_capacity = 0, d_size = 0, d_devptr = 0\<rparr>, st1))
      else Inr (this, this, st))"

definition DeviceBuffer_move_ctor ::
  "DeviceBuffer \<Rightarrow> cuda \<Rightarrow> fatal + (DeviceBuffer \<times> DeviceBuffer \<times> cuda)" where
  "DeviceBuffer_move_ctor b st = DeviceBuffer_move_assign False DeviceBuffer_init b st"

subsection \<open>HostBuffer\<close>

definition HostBuffer_init :: HostBuffer where
  "HostBuffer_init = \<lparr>h_capacity = 0, h_size = 0, h_hostptr = 0\<rparr>"

definition HostBuffer_resize_impl ::
  "nat \<Rightarrow> nat \<Rightarrow> bool \<Rightarrow> HostBuffer \<Rightarrow> cuda \<Rightarrow> fatal + (HostBuffer \<times> cuda)" where
  "HostBuffer_resize_impl sz n copy b st =
     (let hold = h_hostptr b; oldsize = h_size b; b1 = b\<lparr>h_size := n\<rparr> in
      if h_capacity b \<ge> n then Inr (b1, st)
      else
        case grown_capacity n of
          None \<Rightarrow> Inl UndefinedBehaviour
        | Some cap \<Rightarrow>
            thenDo (cudaHostAlloc (sz * cap) st) (\<lambda>(p, st1).
            thenDo (if copy \<and> hold \<noteq> 0 \<and> oldsize > 0
                    then memcpy p hold (sz * oldsize) st1
                    else Inr st1) (\<lambda>st2.
            thenDo (cudaFreeHost hold st2) (\<lambda>st3.
            Inr (b1\<lparr>h_capacity := cap, h_hostptr := p\<rparr>, st3)))))"

definition HostBuffer_resize ::
  "nat \<Rightarrow> nat \<Rightarrow> HostBuffer \<Rightarrow> cuda \<Rightarrow> fatal + (HostBuffer \<times> cuda)" where
  "HostBuffer_resize sz n = HostBuffer_resize_impl sz n True"

definition HostBuffer_resize_anew ::
  "nat \<Rightarrow> nat \<Rightarrow> HostBuffer \<Rightarrow> cuda \<Rightarrow> fatal + (HostBuffer \<times> cuda)" where
  "HostBuffer_resize_anew sz n = HostBuffer_resize_impl sz n False"

definition HostBuffer_ctor :: "nat \<Rightarrow> nat \<Rightarrow> cuda \<Rightarrow> fatal + (HostBuffer \<times> cuda)" where
  "HostBuffer_ctor sz n st = HostBuffer_resize_anew sz n HostBuffer_init st"

definition HostBuffer_dtor :: "HostBuffer \<Rightarrow> cuda \<Rightarrow> fatal + cuda" where
  "HostBuffer_dtor b st = cudaFreeHost (h_hostptr b) st"

definition HostBuffer_clear :: "nat \<Rightarrow> HostBuffer \<Rightarrow> cuda \<Rightarrow> fatal + (HostBuffer \<times> cuda)" where
  "HostBuffer_clear sz b st =
     thenDo (memset (h_hostptr b) (sz * h_size b) st) (\<lambda>st1. Inr (b, st1))"

definition HostBuffer_copy_hostPtr ::
  "nat \<Rightarrow> nat \<Rightarrow> addr \<Rightarrow> HostBuffer \<Rightarrow> cuda \<Rightarrow> fatal + (HostBuffer \<times> cuda)" where
  "HostBuffer_copy_hostPtr sz csize cptr b st =
     thenDo (HostBuffer_resize sz csize b st) (\<lambda>(b1, st1).
     thenDo (memcpy (h_hostptr b1) cptr (sz * h_size b1) st1) (\<lambda>st2. Inr (b1, st2)))"

definition HostBuffer_copy_devPtr ::
  "nat \<Rightarrow> nat \<Rightarrow> addr \<Rightarrow> cudaStream_t \<Rightarrow> HostBuffer \<Rightarrow> cuda \<Rightarrow> fatal + (HostBuffer \<times> cuda)" where
  "HostBuffer_copy_devPtr sz csize cptr stream b st =
     thenDo (HostBuffer_resize sz csize b st) (\<lambda>(b1, st1).
       if h_size b1 > 0
       then thenDo (cudaMemcpyAsync (h_hostptr b1) cptr (sz * h_size b1)
                      cudaMemcpyDeviceToHost stream st1) (\<lambda>st2. Inr (b1, st2))
       else Inr (b1, st1))"

text \<open>
  \<open>genericCopy(cont, stream)\<close>: \<open>dsize\<close>, \<open>csize\<close> and \<open>cptr\<close> are the source's
  \<open>datatype_size()\<close>, \<open>size()\<close> and \<open>genericDevPtr()\<close>.
\<close>

definition HostBuffer_genericCopy ::
  "nat \<Rightarrow> nat \<Rightarrow> nat \<Rightarrow> addr \<Rightarrow> cudaStream_t \<Rightarrow> HostBuffer \<Rightarrow> cuda \<Rightarrow> fatal + (HostBuffer \<times> cuda)" where
  "HostBuffer_genericCopy sz dsize csize cptr stream b st =
     (if dsize mod sz \<noteq> 0 then Inl Die
      else
        (let typeSizeFactor = dsize div sz in
         thenDo (HostBuffer_resize sz (csize * typeSizeFactor) b st) (\<lambda>(b1, st1).
           if h_size b1 > 0
           then thenDo (cudaMemcpyAsync (h_hostptr b1) cptr (sz * h_size b1)
                          cudaMemcpyDeviceToHost stream st1) (\<lambda>st2. Inr (b1, st2))
           else Inr (b1, st1))))"

text \<open>\<open>operator[]\<close>: the element \<open>i\<close> of the host allocation, written and read.\<close>

definition HostBuffer_store ::
  "nat \<Rightarrow> nat \<Rightarrow> cell list \<Rightarrow> HostBuffer \<Rightarrow> cuda \<Rightarrow> fatal + (HostBuffer \<times> cuda)" where
  "HostBuffer_store sz i v b st =
     (if length v \<noteq> sz then Inl UndefinedBehaviour
      else case store_cells (hmem st) (h_hostptr b) (sz * i) v of
             Some m \<Rightarrow> Inr (b, st\<lparr>hmem := m\<rparr>) | None \<Rightarrow> Inl UndefinedBehaviour)"

definition HostBuffer_load :: "nat \<Rightarrow> nat \<Rightarrow> HostBuffer \<Rightarrow> cuda \<Rightarrow> fatal + cell list" where
  "HostBuffer_load sz i b st =
     (case load_cells (hmem st) (h_hostptr b) (sz * i) sz of
        Some v \<Rightarrow> Inr v | None \<Rightarrow> Inl UndefinedBehaviour)"

definition HostBuffer_move_assign ::
  "bool \<Rightarrow> HostBuffer \<Rightarrow> HostBuffer \<Rightarrow> cuda \<Rightarrow> fatal + (HostBuffer \<times> HostBuffer \<times> cuda)" where
  "HostBuffer_move_assign self this b st =
     (if \<not> self
      then thenDo (if h_hostptr this \<noteq> 0 then cudaFreeHost (h_hostptr this) st else Inr st) (\<lambda>st1.
             Inr (\<lparr>h_capacity = h_capacity b, h_size = h_size b, h_hostptr = h_hostptr b\<rparr>,
                  \<lparr>h_capacity = 0, h_size = 0, h_hostptr = 0\<rparr>, st1))
      else Inr (this, this, st))"

definition HostBuffer_move_ctor ::
  "HostBuffer \<Rightarrow> cuda \<Rightarrow> fatal + (HostBuffer \<times> HostBuffer \<times> cuda)" where
  "HostBuffer_move_ctor b st = HostBuffer_move_assign False HostBuffer_init b st"

subsection \<open>PinnedBuffer\<close>

definition PinnedBuffer_init :: PinnedBuffer where
  "PinnedBuffer_init = \<lparr>p_capacity = 0, p_size = 0, p_hostptr = 0, p_devptr = 0\<rparr>"

definition PinnedBuffer_resize_impl ::
  "nat \<Rightarrow> nat \<Rightarrow> cudaStream_t \<Rightarrow> bool \<Rightarrow> PinnedBuffer \<Rightarrow> cuda \<Rightarrow> fatal + (PinnedBuffer \<times> cuda)" where
  "PinnedBuffer_resize_impl sz n stream copy b st =
     (let hold = p_hostptr b; dold = p_devptr b; oldsize = p_size b; b1 = b\<lparr>p_size := n\<rparr> in
      if p_capacity b \<ge> n then Inr (b1, st)
      else
        case grown_capacity n of
          None \<Rightarrow> Inl UndefinedBehaviour
        | Some cap \<Rightarrow>
            thenDo (cudaHostAlloc (sz * cap) st) (\<lambda>(hp, st1).
            thenDo (cudaMalloc (sz * cap) st1) (\<lambda>(dp, st2).
            thenDo (if copy \<and> hold \<noteq> 0 \<and> oldsize > 0
                    then thenDo (memcpy hp hold (sz * oldsize) st2) (\<lambda>st3.
                         thenDo (cudaMemcpyAsync dp dold (sz * oldsize)
                                   cudaMemcpyDeviceToDevice stream st3) (\<lambda>st4.
                         cudaStreamSynchronize stream st4))
                    else Inr st2) (\<lambda>st5.
            thenDo (cudaFreeHost hold st5) (\<lambda>st6.
            thenDo (cudaFree dold st6) (\<lambda>st7.
            Inr (b1\<lparr>p_capacity := cap, p_hostptr := hp, p_devptr := dp\<rparr>, st7)))))))"

definition PinnedBuffer_resize ::
  "nat \<Rightarrow> nat \<Rightarrow> cudaStream_t \<Rightarrow> PinnedBuffer \<Rightarrow> cuda \<Rightarrow> fatal + (PinnedBuffer \<times> cuda)" where
  "PinnedBuffer_resize sz n stream = PinnedBuffer_resize_impl sz n stream True"

definition PinnedBuffer_resize_anew ::
  "nat \<Rightarrow> nat \<Rightarrow> PinnedBuffer \<Rightarrow> cuda \<Rightarrow> fatal + (PinnedBuffer \<times> cuda)" where
  "PinnedBuffer_resize_anew sz n = PinnedBuffer_resize_impl sz n 0 False"

definition PinnedBuffer_ctor :: "nat \<Rightarrow> nat \<Rightarrow> cuda \<Rightarrow> fatal + (PinnedBuffer \<times> cuda)" where
  "PinnedBuffer_ctor sz n st = PinnedBuffer_resize_anew sz n PinnedBuffer_init st"

definition PinnedBuffer_dtor :: "PinnedBuffer \<Rightarrow> cuda \<Rightarrow> fatal + cuda" where
  "PinnedBuffer_dtor b st =
     (if p_devptr b \<noteq> 0
      then thenDo (cudaFreeHost (p_hostptr b) st) (\<lambda>st1. cudaFree (p_devptr b) st1)
      else Inr st)"

definition PinnedBuffer_downloadFromDevice ::
  "nat \<Rightarrow> cudaStream_t \<Rightarrow> ContainersSynch \<Rightarrow> PinnedBuffer \<Rightarrow> cuda \<Rightarrow> fatal + (PinnedBuffer \<times> cuda)" where
  "PinnedBuffer_downloadFromDevice sz stream synch b st =
     thenDo (if p_size b > 0
             then cudaMemcpyAsync (p_hostptr b) (p_devptr b) (sz * p_size b)
                    cudaMemcpyDeviceToHost stream st
             else Inr st) (\<lambda>st1.
     thenDo (if synch = Synch then cudaStreamSynchronize stream st1 else Inr st1) (\<lambda>st2.
     Inr (b, st2)))"

definition PinnedBuffer_uploadToDevice ::
  "nat \<Rightarrow> cudaStream_t \<Rightarrow> PinnedBuffer \<Rightarrow> cuda \<Rightarrow> fatal + (PinnedBuffer \<times> cuda)" where
  "PinnedBuffer_uploadToDevice sz stream b st =
     (if p_size b > 0
      then thenDo (cudaMemcpyAsync (p_devptr b) (p_hostptr b) (sz * p_size b)
                     cudaMemcpyHostToDevice stream st) (\<lambda>st1. Inr (b, st1))
      else Inr (b, st))"

definition PinnedBuffer_clearDevice ::
  "nat \<Rightarrow> cudaStream_t \<Rightarrow> PinnedBuffer \<Rightarrow> cuda \<Rightarrow> fatal + (PinnedBuffer \<times> cuda)" where
  "PinnedBuffer_clearDevice sz stream b st =
     (if p_size b > 0
      then thenDo (cudaMemsetAsync (p_devptr b) (sz * p_size b) stream st) (\<lambda>st1. Inr (b, st1))
      else Inr (b, st))"

definition PinnedBuffer_clearHost ::
  "nat \<Rightarrow> PinnedBuffer \<Rightarrow> cuda \<Rightarrow> fatal + (PinnedBuffer \<times> cuda)" where
  "PinnedBuffer_clearHost sz b st =
     (if p_size b > 0
      then thenDo (memset (p_hostptr b) (sz * p_size b) st) (\<lambda>st1. Inr (b, st1))
      else Inr (b, st))"

definition PinnedBuffer_clear ::
  "nat \<Rightarrow> cudaStream_t \<Rightarrow> PinnedBuffer \<Rightarrow> cuda \<Rightarrow> fatal + (PinnedBuffer \<times> cuda)" where
  "PinnedBuffer_clear sz stream b st =
     thenDo (PinnedBuffer_clearDevice sz stream b st) (\<lambda>(b1, st1). PinnedBuffer_clearHost sz b1 st1)"

definition PinnedBuffer_copy_DeviceBuffer ::
  "nat \<Rightarrow> DeviceBuffer \<Rightarrow> cudaStream_t \<Rightarrow> PinnedBuffer \<Rightarrow> cuda \<Rightarrow> fatal + (PinnedBuffer \<times> cuda)" where
  "PinnedBuffer_copy_DeviceBuffer sz cont stream b st =
     thenDo (PinnedBuffer_resize_anew sz (d_size cont) b st) (\<lambda>(b1, st1).
       if p_size b1 > 0
       then thenDo (cudaMemcpyAsync (p_devptr b1) (d_devptr cont) (sz * p_size b1)
                      cudaMemcpyDeviceToDevice stream st1) (\<lambda>st2. Inr (b1, st2))
       else Inr (b1, st1))"

definition PinnedBuffer_copy_HostBuffer ::
  "nat \<Rightarrow> HostBuffer \<Rightarrow> PinnedBuffer \<Rightarrow> cuda \<Rightarrow> fatal + (PinnedBuffer \<times> cuda)" where
  "PinnedBuffer_copy_HostBuffer sz cont b st =
     thenDo (PinnedBuffer_resize_anew sz (h_size cont) b st) (\<lambda>(b1, st1).
     thenDo (memcpy (p_hostptr b1) (h_hostptr cont) (sz * p_size b1) st1) (\<lambda>st2. Inr (b1, st2)))"

definition PinnedBuffer_copy_PinnedBuffer ::
  "nat \<Rightarrow> PinnedBuffer \<Rightarrow> cudaStream_t \<Rightarrow> PinnedBuffer \<Rightarrow> cuda \<Rightarrow> fatal + (PinnedBuffer \<times> cuda)" where
  "PinnedBuffer_copy_PinnedBuffer sz cont stream b st =
     thenDo (PinnedBuffer_resize_anew sz (p_size cont) b st) (\<lambda>(b1, st1).
       if p_size b1 > 0
       then thenDo (cudaMemcpyAsync (p_devptr b1) (p_devptr cont) (sz * p_size b1)
                      cudaMemcpyDeviceToDevice stream st1) (\<lambda>st2.
            thenDo (memcpy (p_hostptr b1) (p_hostptr cont) (sz * p_size b1) st2) (\<lambda>st3.
            Inr (b1, st3)))
       else Inr (b1, st1))"

definition PinnedBuffer_copyDeviceOnly ::
  "nat \<Rightarrow> PinnedBuffer \<Rightarrow> cudaStream_t \<Rightarrow> PinnedBuffer \<Rightarrow> cuda \<Rightarrow> fatal + (PinnedBuffer \<times> cuda)" where
  "PinnedBuffer_copyDeviceOnly sz cont stream b st =
     thenDo (PinnedBuffer_resize_anew sz (p_size cont) b st) (\<lambda>(b1, st1).
       if p_size b1 > 0
       then thenDo (cudaMemcpyAsync (p_devptr b1) (p_devptr cont) (sz * p_size b1)
                      cudaMemcpyDeviceToDevice stream st1) (\<lambda>st2. Inr (b1, st2))
       else Inr (b1, st1))"

definition PinnedBuffer_copy ::
  "nat \<Rightarrow> PinnedBuffer \<Rightarrow> PinnedBuffer \<Rightarrow> cuda \<Rightarrow> fatal + (PinnedBuffer \<times> cuda)" where
  "PinnedBuffer_copy sz cont b st =
     thenDo (PinnedBuffer_resize_anew sz (p_size cont) b st) (\<lambda>(b1, st1).
       if p_size b1 > 0
       then thenDo (cudaMemcpy (p_devptr b1) (p_devptr cont) (sz * p_size b1)
                      cudaMemcpyDeviceToDevice st1) (\<lambda>st2.
            thenDo (memcpy (p_hostptr b1) (p_hostptr cont) (sz * p_size b1) st2) (\<lambda>st3.
            Inr (b1, st3)))
       else Inr (b1, st1))"

definition PinnedBuffer_store ::
  "nat \<Rightarrow> nat \<Rightarrow> cell list \<Rightarrow> PinnedBuffer \<Rightarrow> cuda \<Rightarrow> fatal + (PinnedBuffer \<times> cuda)" where
  "PinnedBuffer_store sz i v b st =
     (if length v \<noteq> sz then Inl UndefinedBehaviour
      else case store_cells (hmem st) (p_hostptr b) (sz * i) v of
             Some m \<Rightarrow> Inr (b, st\<lparr>hmem := m\<rparr>) | None \<Rightarrow> Inl UndefinedBehaviour)"


definition PinnedBuffer_move_assign ::
  "bool \<Rightarrow> PinnedBuffer \<Rightarrow> PinnedBuffer \<Rightarrow> cuda \<Rightarrow> fatal + (PinnedBuffer \<times> PinnedBuffer \<times> cuda)" where
  "PinnedBuffer_move_assign self this b st =
     (if \<not> self
      then Inr (\<lparr>p_capacity = p_capacity b, p_size = p_size b,
                 p_hostptr = p_hostptr b, p_devptr = p_devptr b\<rparr>,
                \<lparr>p_capacity = 0, p_size = 0, p_hostptr = 0, p_devptr = 0\<rparr>, st)
      else Inr (this, this, st))"

definition PinnedBuffer_move_ctor ::
  "PinnedBuffer \<Rightarrow> cuda \<Rightarrow> fatal + (PinnedBuffer \<times> PinnedBuffer \<times> cuda)" where
  "PinnedBuffer_move_ctor b st = PinnedBuffer_move_assign False PinnedBuffer_init b st"
subsection \<open>The public operations, as data\<close>

text \<open>
  One constructor for each public member function that changes an existing object, so
  that a statement about every operation is a statement about every value of the type.
  Construction, destruction and the moves (which change two objects) are stated apart.
\<close>

datatype DeviceBuffer_op =
    D_resize nat cudaStream_t
  | D_resize_anew nat
  | D_clearDevice cudaStream_t
  | D_clear cudaStream_t
  | D_copy_DeviceBuffer_async DeviceBuffer cudaStream_t
  | D_copy_HostBuffer_async HostBuffer cudaStream_t
  | D_copy DeviceBuffer
  | D_copyFromDevice PinnedBuffer cudaStream_t
  | D_copyFromHost PinnedBuffer cudaStream_t

fun DeviceBuffer_call ::
  "nat \<Rightarrow> DeviceBuffer_op \<Rightarrow> DeviceBuffer \<Rightarrow> cuda \<Rightarrow> fatal + (DeviceBuffer \<times> cuda)" where
  "DeviceBuffer_call sz (D_resize n s) = DeviceBuffer_resize sz n s"
| "DeviceBuffer_call sz (D_resize_anew n) = DeviceBuffer_resize_anew sz n"
| "DeviceBuffer_call sz (D_clearDevice s) = DeviceBuffer_clearDevice sz s"
| "DeviceBuffer_call sz (D_clear s) = DeviceBuffer_clear sz s"
| "DeviceBuffer_call sz (D_copy_DeviceBuffer_async c s) =
     DeviceBuffer_copy_devPtr sz (d_size c) (d_devptr c) s"
| "DeviceBuffer_call sz (D_copy_HostBuffer_async c s) =
     DeviceBuffer_copy_hostPtr sz (h_size c) (h_hostptr c) s"
| "DeviceBuffer_call sz (D_copy c) = DeviceBuffer_copy sz c"
| "DeviceBuffer_call sz (D_copyFromDevice c s) = DeviceBuffer_copyFromDevice sz c s"
| "DeviceBuffer_call sz (D_copyFromHost c s) = DeviceBuffer_copyFromHost sz c s"

datatype HostBuffer_op =
    H_resize nat
  | H_resize_anew nat
  | H_clear
  | H_copy_HostBuffer HostBuffer
  | H_copy_PinnedBuffer PinnedBuffer
  | H_copy_DeviceBuffer_async DeviceBuffer cudaStream_t
  | H_copy_PinnedBuffer_async PinnedBuffer cudaStream_t
  | H_genericCopy nat nat addr cudaStream_t
  | H_store nat "cell list"

fun HostBuffer_call ::
  "nat \<Rightarrow> HostBuffer_op \<Rightarrow> HostBuffer \<Rightarrow> cuda \<Rightarrow> fatal + (HostBuffer \<times> cuda)" where
  "HostBuffer_call sz (H_resize n) = HostBuffer_resize sz n"
| "HostBuffer_call sz (H_resize_anew n) = HostBuffer_resize_anew sz n"
| "HostBuffer_call sz H_clear = HostBuffer_clear sz"
| "HostBuffer_call sz (H_copy_HostBuffer c) = HostBuffer_copy_hostPtr sz (h_size c) (h_hostptr c)"
| "HostBuffer_call sz (H_copy_PinnedBuffer c) = HostBuffer_copy_hostPtr sz (p_size c) (p_hostptr c)"
| "HostBuffer_call sz (H_copy_DeviceBuffer_async c s) =
     HostBuffer_copy_devPtr sz (d_size c) (d_devptr c) s"
| "HostBuffer_call sz (H_copy_PinnedBuffer_async c s) =
     HostBuffer_copy_devPtr sz (p_size c) (p_devptr c) s"
| "HostBuffer_call sz (H_genericCopy dsize csize cptr s) =
     HostBuffer_genericCopy sz dsize csize cptr s"
| "HostBuffer_call sz (H_store i v) = HostBuffer_store sz i v"

datatype PinnedBuffer_op =
    P_resize nat cudaStream_t
  | P_resize_anew nat
  | P_downloadFromDevice cudaStream_t ContainersSynch
  | P_uploadToDevice cudaStream_t
  | P_clear cudaStream_t
  | P_clearDevice cudaStream_t
  | P_clearHost
  | P_copy_DeviceBuffer DeviceBuffer cudaStream_t
  | P_copy_HostBuffer HostBuffer
  | P_copy_PinnedBuffer_async PinnedBuffer cudaStream_t
  | P_copyDeviceOnly PinnedBuffer cudaStream_t
  | P_copy PinnedBuffer
  | P_store nat "cell list"

fun PinnedBuffer_call ::
  "nat \<Rightarrow> PinnedBuffer_op \<Rightarrow> PinnedBuffer \<Rightarrow> cuda \<Rightarrow> fatal + (PinnedBuffer \<times> cuda)" where
  "PinnedBuffer_call sz (P_resize n s) = PinnedBuffer_resize sz n s"
| "PinnedBuffer_call sz (P_resize_anew n) = PinnedBuffer_resize_anew sz n"
| "PinnedBuffer_call sz (P_downloadFromDevice s synch) = PinnedBuffer_downloadFromDevice sz s synch"
| "PinnedBuffer_call sz (P_uploadToDevice s) = PinnedBuffer_uploadToDevice sz s"
| "PinnedBuffer_call sz (P_clear s) = PinnedBuffer_clear sz s"
| "PinnedBuffer_call sz (P_clearDevice s) = PinnedBuffer_clearDevice sz s"
| "PinnedBuffer_call sz P_clearHost = PinnedBuffer_clearHost sz"
| "PinnedBuffer_call sz (P_copy_DeviceBuffer c s) = PinnedBuffer_copy_DeviceBuffer sz c s"
| "PinnedBuffer_call sz (P_copy_HostBuffer c) = PinnedBuffer_copy_HostBuffer sz c"
| "PinnedBuffer_call sz (P_copy_PinnedBuffer_async c s) = PinnedBuffer_copy_PinnedBuffer sz c s"
| "PinnedBuffer_call sz (P_copyDeviceOnly c s) = PinnedBuffer_copyDeviceOnly sz c s"
| "PinnedBuffer_call sz (P_copy c) = PinnedBuffer_copy sz c"
| "PinnedBuffer_call sz (P_store i v) = PinnedBuffer_store sz i v"

subsection \<open>The state invariants\<close>




subsection \<open>Sequences of operations, and a runtime to start from\<close>

fun DeviceBuffer_calls ::
  "nat \<Rightarrow> DeviceBuffer_op list \<Rightarrow> DeviceBuffer \<Rightarrow> cuda \<Rightarrow> fatal + (DeviceBuffer \<times> cuda)" where
  "DeviceBuffer_calls sz [] b st = Inr (b, st)"
| "DeviceBuffer_calls sz (op # ops) b st =
     thenDo (DeviceBuffer_call sz op b st) (\<lambda>(b1, st1). DeviceBuffer_calls sz ops b1 st1)"

fun HostBuffer_calls ::
  "nat \<Rightarrow> HostBuffer_op list \<Rightarrow> HostBuffer \<Rightarrow> cuda \<Rightarrow> fatal + (HostBuffer \<times> cuda)" where
  "HostBuffer_calls sz [] b st = Inr (b, st)"
| "HostBuffer_calls sz (op # ops) b st =
     thenDo (HostBuffer_call sz op b st) (\<lambda>(b1, st1). HostBuffer_calls sz ops b1 st1)"

fun PinnedBuffer_calls ::
  "nat \<Rightarrow> PinnedBuffer_op list \<Rightarrow> PinnedBuffer \<Rightarrow> cuda \<Rightarrow> fatal + (PinnedBuffer \<times> cuda)" where
  "PinnedBuffer_calls sz [] b st = Inr (b, st)"
| "PinnedBuffer_calls sz (op # ops) b st =
     thenDo (PinnedBuffer_call sz op b st) (\<lambda>(b1, st1). PinnedBuffer_calls sz ops b1 st1)"

text \<open>A runtime with nothing allocated, nothing enqueued and the given free memory.\<close>

definition runtime_start :: "nat \<Rightarrow> nat \<Rightarrow> cuda" where
  "runtime_start dbytes hbytes =
     \<lparr>dmem = [], hmem = [], dfree = dbytes, hfree = hbytes, pending = [], sticky = False,
      calls = []\<rparr>"

subsection \<open>Reading the contents\<close>

text \<open>The first \<open>n\<close> bytes of the allocation at \<open>p\<close>; no byte is read when \<open>n\<close> is 0.\<close>

definition cells_of :: "memory \<Rightarrow> addr \<Rightarrow> nat \<Rightarrow> cell list option" where
  "cells_of m p n = (if n = 0 then Some [] else load_cells m p 0 n)"

text \<open>
  The round trip of the dual buffer. The host side is filled element by element
  (\<open>operator[]\<close>); then it is uploaded, cleared and downloaded with
  \<open>ContainersSynch::Synch\<close>, and read. \<open>wait\<close> says whether the caller synchronises the
  stream between the upload and \<open>clearHost\<close>; \<open>g1\<close>, \<open>g2\<close>, \<open>g3\<close> are the work the device
  happens to run, by itself, between the calls.
\<close>

fun PinnedBuffer_fill ::
  "nat \<Rightarrow> nat \<Rightarrow> cell list list \<Rightarrow> PinnedBuffer \<Rightarrow> cuda \<Rightarrow> fatal + (PinnedBuffer \<times> cuda)" where
  "PinnedBuffer_fill sz i [] b st = Inr (b, st)"
| "PinnedBuffer_fill sz i (v # vs) b st =
     thenDo (PinnedBuffer_store sz i v b st) (\<lambda>(b1, st1). PinnedBuffer_fill sz (Suc i) vs b1 st1)"

definition round_trip ::
  "nat \<Rightarrow> cudaStream_t \<Rightarrow> bool \<Rightarrow> cudaStream_t list \<Rightarrow> cudaStream_t list \<Rightarrow> cudaStream_t list \<Rightarrow>
   PinnedBuffer \<Rightarrow> cuda \<Rightarrow> fatal + cell list option" where
  "round_trip sz stream wait g1 g2 g3 b st =
     thenDo (PinnedBuffer_uploadToDevice sz stream b st) (\<lambda>(b2, st2).
     thenDo (if wait then cudaStreamSynchronize stream (background g1 st2)
             else Inr (background g1 st2)) (\<lambda>st3.
     thenDo (PinnedBuffer_clearHost sz b2 (background g2 st3)) (\<lambda>(b4, st4).
     thenDo (PinnedBuffer_downloadFromDevice sz stream Synch b4 (background g3 st4)) (\<lambda>(b5, st5).
     Inr (cells_of (hmem st5) (p_hostptr b5) (sz * p_size b5))))))"

subsection \<open>Which calls block\<close>



section \<open>Facts about the growth policy\<close>

lemma excess_bits_upper: "a div 2 ^ excess_bits a < 2 ^ 53"
proof (induction a rule: excess_bits.induct)
  case (1 a)
  show ?case
  proof (cases "a < 2 ^ 53")
    case True
    then show ?thesis by (simp add: excess_bits.simps)
  next
    case False
    have "a div 2 ^ excess_bits a = a div 2 div 2 ^ excess_bits (a div 2)"
      using False by (subst excess_bits.simps) (simp add: div_mult2_eq)
    with 1 False show ?thesis by simp
  qed
qed

lemma excess_bits_lower: "0 < excess_bits a \<Longrightarrow> 2 ^ 52 \<le> a div 2 ^ excess_bits a"
proof (induction a rule: excess_bits.induct)
  case (1 a)
  from "1.prems" have big: "\<not> a < 2 ^ 53"
    by (subst (asm) excess_bits.simps) (simp split: if_splits)
  have step: "a div 2 ^ excess_bits a = a div 2 div 2 ^ excess_bits (a div 2)"
    using big by (subst excess_bits.simps) (simp add: div_mult2_eq)
  show ?case
  proof (cases "0 < excess_bits (a div 2)")
    case True
    with 1 big step show ?thesis by simp
  next
    case False
    then have "a div 2 ^ excess_bits a = a div 2" using step by simp
    with big show ?thesis by simp
  qed
qed

lemma round_nearest_even_cases:
  "round_nearest_even a = (a div 2 ^ excess_bits a) * 2 ^ excess_bits a \<or>
   round_nearest_even a = (a div 2 ^ excess_bits a + 1) * 2 ^ excess_bits a"
  by (simp add: round_nearest_even_def Let_def)

lemma round_nearest_even_exact: "excess_bits a = 0 \<Longrightarrow> round_nearest_even a = a"
  by (simp add: round_nearest_even_def Let_def)

text \<open>A rounded value is at most one part in \<open>2 ^ 52\<close> below the exact one; a sixty-fourth is enough here.\<close>

lemma round_nearest_even_lower: "63 * a \<le> 64 * round_nearest_even a"
proof (cases "excess_bits a = 0")
  case True
  then show ?thesis by (simp add: round_nearest_even_exact)
next
  case False
  define s where "s = excess_bits a"
  define q where "q = a div 2 ^ s"
  define r where "r = a mod 2 ^ s"
  have a: "a = q * 2 ^ s + r" using div_mult_mod_eq [of a "2 ^ s"] by (simp add: q_def r_def)
  have q: "2 ^ 52 \<le> q" using False excess_bits_lower [of a] by (simp add: q_def s_def)
  have r: "r < 2 ^ s" by (simp add: r_def)
  have "63 * r \<le> 63 * 2 ^ s" using r by simp
  also have "\<dots> \<le> q * 2 ^ s" using q by simp
  finally have rq: "63 * r \<le> q * 2 ^ s" .
  have ge: "q * 2 ^ s \<le> round_nearest_even a"
    using round_nearest_even_cases [of a] by (auto simp: q_def s_def)
  have "63 * a = 63 * (q * 2 ^ s) + 63 * r" by (subst a) (simp add: algebra_simps)
  also have "\<dots> \<le> 64 * (q * 2 ^ s)" using rq by simp
  also have "\<dots> \<le> 64 * round_nearest_even a" using ge by simp
  finally show ?thesis .
qed

lemma round_nearest_even_shape:
  "\<exists>m\<le>2 ^ 53. round_nearest_even a = m * 2 ^ excess_bits a"
proof -
  have "a div 2 ^ excess_bits a + 1 \<le> 2 ^ 53"
    using excess_bits_upper [of a] by simp
  then show ?thesis
    using round_nearest_even_cases [of a] by (metis add_leD1)
qed

lemma conservative_estimate_ge:
  assumes "conservative_estimate n = Some e"
  shows "n \<le> e" and "10 \<le> e"
proof -
  define x where "x = round_nearest_even n"
  define p where "p = round_nearest_even (mant_1_1 * x)"
  define t where "t = round_nearest_even (p + 10 * 2 ^ 52)"
  have e: "e = (t + (2 ^ 52 - 1)) div 2 ^ 52"
    using assms by (simp add: conservative_estimate_def Let_def x_def p_def t_def split: if_splits)
  have 1: "63 * n \<le> 64 * x" unfolding x_def by (rule round_nearest_even_lower)
  have 2: "63 * (4953959590107546 * x) \<le> 64 * p"
    unfolding p_def using round_nearest_even_lower [of "mant_1_1 * x"] by (simp add: mant_1_1_def)
  have 3: "63 * (p + 45035996273704960) \<le> 64 * t"
    unfolding t_def using round_nearest_even_lower [of "p + 10 * 2 ^ 52"] by simp
  have 4: "t \<le> e * 4503599627370496" unfolding e by simp
  have "(64 * 64 * 64 * 4503599627370496) * n \<le> (63 * 63 * 4953959590107546) * (63 * n)"
    by simp
  also have "\<dots> \<le> (63 * 63 * 4953959590107546) * (64 * x)"
    using 1 by (rule mult_le_mono2)
  also have "\<dots> = (63 * 64) * (63 * (4953959590107546 * x))" by simp
  also have "\<dots> \<le> (63 * 64) * (64 * p)"
    using 2 by (rule mult_le_mono2)
  also have "\<dots> \<le> (64 * 64) * (63 * (p + 45035996273704960))" by simp
  also have "\<dots> \<le> (64 * 64) * (64 * t)"
    using 3 by (rule mult_le_mono2)
  also have "\<dots> \<le> (64 * 64 * 64) * (e * 4503599627370496)"
    using 4 by simp
  finally show "n \<le> e" by simp
  have "63 * 45035996273704960 \<le> 64 * t" using 3 by simp
  with 4 show "10 \<le> e" by simp
qed

text \<open>
  The \<open>size_t\<close> arithmetic after the conversion never wraps: an estimate close to
  \<open>2 ^ 64\<close> is the ceiling of a double that large, hence a multiple of \<open>1024\<close>.
\<close>

lemma conservative_estimate_no_wrap:
  assumes "conservative_estimate n = Some e"
  shows "e + 127 < 2 ^ 64"
proof (rule ccontr)
  assume wrap: "\<not> e + 127 < 2 ^ 64"
  define u where "u = round_nearest_even (mant_1_1 * round_nearest_even n) + 10 * 2 ^ 52"
  define t where "t = round_nearest_even u"
  define s where "s = excess_bits u"
  have e: "e = (t + (2 ^ 52 - 1)) div 2 ^ 52" and lt: "e < 2 ^ 64"
    using assms by (simp_all add: conservative_estimate_def Let_def u_def t_def split: if_splits)
  obtain m where m: "m \<le> 2 ^ 53" and t: "t = m * 2 ^ s"
    using round_nearest_even_shape [of u] by (auto simp: t_def s_def)
  have tbig: "2 ^ 115 < t" using wrap e by simp
  have s: "63 \<le> s"
  proof (rule ccontr)
    assume "\<not> 63 \<le> s"
    then have "s \<le> 62" by simp
    then have "(2::nat) ^ s \<le> 2 ^ 62" by (rule power_increasing) simp
    then have "m * 2 ^ s \<le> 2 ^ 53 * 2 ^ 62" using m by (rule mult_le_mono [rotated])
    with tbig t show False by simp
  qed
  define w where "w = m * 2 ^ (s - 62)"
  have "(2::nat) ^ s = 2 ^ (s - 62) * 2 ^ 62"
    using s power_add [of "2::nat" "s - 62" 62] by simp
  then have t': "t = (1024 * w) * 2 ^ 52" by (simp add: t w_def)
  have "e = 1024 * w" unfolding e t' by simp
  with lt wrap show False by simp
qed

lemma grown_capacity_Some:
  assumes "grown_capacity n = Some c"
  obtains e where "conservative_estimate n = Some e" and "c = 128 * ((e + 127) div 128)"
proof -
  from assms obtain e where e: "conservative_estimate n = Some e"
    and c: "c = (128 * (((e + 127) mod 2 ^ 64) div 128)) mod 2 ^ 64"
    by (auto simp: grown_capacity_def)
  have nw: "e + 127 < 2 ^ 64" using e by (rule conservative_estimate_no_wrap)
  then have "128 * ((e + 127) div 128) < 2 ^ 64" by simp
  with nw c have "c = 128 * ((e + 127) div 128)" by simp
  with e that show thesis by blast
qed

lemma grown_capacity_ge: "grown_capacity n = Some c \<Longrightarrow> n \<le> c"
  using conservative_estimate_ge(1) [of n] by (auto elim!: grown_capacity_Some intro: le_trans)


lemma grown_capacity_dvd: "grown_capacity n = Some c \<Longrightarrow> 128 dvd c"
  by (auto elim!: grown_capacity_Some)

lemma align_up_ceiling: "(e + 127) div 128 = nat \<lceil>real e / 128\<rceil>"
proof -
  have "\<lceil>real e / 128\<rceil> = - ((- int e) div 128)"
    by (metis ceiling_divide_eq_div of_int_of_nat_eq of_nat_numeral)
  also have "\<dots> = int ((e + 127) div 128)" by (simp add: zdiv_int)
  finally show ?thesis by simp
qed

lemma round_nearest_even_eval:
  "excess_bits a = s \<Longrightarrow>
   round_nearest_even a =
     (if 2 * (a mod 2 ^ s) < 2 ^ s then a div 2 ^ s * 2 ^ s
      else if 2 * (a mod 2 ^ s) = 2 ^ s \<and> even (a div 2 ^ s) then a div 2 ^ s * 2 ^ s
      else (a div 2 ^ s + 1) * 2 ^ s)"
  by (simp add: round_nearest_even_def Let_def)

lemma conservative_estimate_eval:
  "round_nearest_even n = x \<Longrightarrow> round_nearest_even (mant_1_1 * x) = p \<Longrightarrow>
   round_nearest_even (p + 10 * 2 ^ 52) = t \<Longrightarrow>
   conservative_estimate n =
     (let c = (t + (2 ^ 52 - 1)) div 2 ^ 52 in if c < 2 ^ 64 then Some c else None)"
  by (simp add: conservative_estimate_def Let_def)

lemma conservative_estimate_1: "conservative_estimate 1 = Some 12"
proof -
  have x: "round_nearest_even 1 = 1"
    by (simp add: round_nearest_even_exact excess_bits.simps)
  have e1: "excess_bits 4953959590107546 = 0" by (simp add: excess_bits.simps)
  have p: "round_nearest_even (mant_1_1 * 1) = 4953959590107546"
    using round_nearest_even_eval [OF e1] by (simp add: mant_1_1_def)
  have e2: "excess_bits 49989955863812506 = 3" by (simp add: excess_bits.simps)
  have t: "round_nearest_even (4953959590107546 + 10 * 2 ^ 52) = 49989955863812504"
    using round_nearest_even_eval [OF e2] by simp
  show ?thesis
    using conservative_estimate_eval [OF x p t] by simp
qed

lemma grown_capacity_1: "grown_capacity 1 = Some 128"
  unfolding grown_capacity_def conservative_estimate_1 by simp

lemma conservative_estimate_340: "conservative_estimate 340 = Some 385"
proof -
  have x: "round_nearest_even 340 = 340"
    by (simp add: round_nearest_even_exact excess_bits.simps)
  have e1: "excess_bits 1684346260636565640 = 8" by (simp add: excess_bits.simps)
  have p: "round_nearest_even (mant_1_1 * 340) = 1684346260636565760"
    using round_nearest_even_eval [OF e1] by (simp add: mant_1_1_def)
  have e2: "excess_bits 1729382256910270720 = 8" by (simp add: excess_bits.simps)
  have t: "round_nearest_even (1684346260636565760 + 10 * 2 ^ 52) = 1729382256910270720"
    using round_nearest_even_eval [OF e2] by simp
  show ?thesis
    using conservative_estimate_eval [OF x p t] by simp
qed

lemma grown_capacity_340: "grown_capacity 340 = Some 512"
  unfolding grown_capacity_def conservative_estimate_340 by simp

lemma conservative_estimate_5: "conservative_estimate 5 = Some 16"
proof -
  have x: "round_nearest_even 5 = 5"
    by (simp add: round_nearest_even_exact excess_bits.simps)
  have e1: "excess_bits 24769797950537730 = 2" by (simp add: excess_bits.simps)
  have p: "round_nearest_even (mant_1_1 * 5) = 24769797950537728"
    using round_nearest_even_eval [OF e1] by (simp add: mant_1_1_def)
  have e2: "excess_bits 69805794224242688 = 3" by (simp add: excess_bits.simps)
  have t: "round_nearest_even (24769797950537728 + 10 * 2 ^ 52) = 69805794224242688"
    using round_nearest_even_eval [OF e2] by simp
  show ?thesis
    using conservative_estimate_eval [OF x p t] by simp
qed

lemma grown_capacity_5: "grown_capacity 5 = Some 128"
  unfolding grown_capacity_def conservative_estimate_5 by simp

section \<open>Facts about the runtime\<close>

lemma thenDo_Inr [simp]: "thenDo (Inr x) f = f x"
  by (simp add: thenDo_def)

lemma thenDo_Inl [simp]: "thenDo (Inl e) f = Inl e"
  by (simp add: thenDo_def)

lemma thenDo_eq_Inr: "(thenDo m f = Inr y) = (\<exists>x. m = Inr x \<and> f x = Inr y)"
  by (cases m) simp_all

lemma CUDA_Check_eq_Inr: "(CUDA_Check st = Inr st') = (\<not> sticky st \<and> st' = st)"
  by (auto simp: CUDA_Check_def)

lemma cudaMalloc_nonnull: "cudaMalloc n st = Inr (p, st') \<Longrightarrow> p \<noteq> 0"
  by (auto simp: cudaMalloc_def split: if_splits)

lemma cudaHostAlloc_nonnull: "cudaHostAlloc n st = Inr (p, st') \<Longrightarrow> p \<noteq> 0"
  by (auto simp: cudaHostAlloc_def split: if_splits)

section \<open>What a resize does to the members\<close>

lemma DeviceBuffer_resize_impl_keep:
  "n \<le> d_capacity b \<Longrightarrow> DeviceBuffer_resize_impl sz n s c b st = Inr (b\<lparr>d_size := n\<rparr>, st)"
  by (simp add: DeviceBuffer_resize_impl_def)

lemma DeviceBuffer_resize_impl_grow:
  assumes "DeviceBuffer_resize_impl sz n s c b st = Inr (b', st')" and "d_capacity b < n"
  shows "grown_capacity n = Some (d_capacity b')" and "d_devptr b' \<noteq> 0" and "d_size b' = n"
  using assms
  by (auto simp: DeviceBuffer_resize_impl_def Let_def thenDo_eq_Inr
      dest: cudaMalloc_nonnull split: option.splits if_splits)

lemma HostBuffer_resize_impl_keep:
  "n \<le> h_capacity b \<Longrightarrow> HostBuffer_resize_impl sz n c b st = Inr (b\<lparr>h_size := n\<rparr>, st)"
  by (simp add: HostBuffer_resize_impl_def)

lemma HostBuffer_resize_impl_grow:
  assumes "HostBuffer_resize_impl sz n c b st = Inr (b', st')" and "h_capacity b < n"
  shows "grown_capacity n = Some (h_capacity b')" and "h_hostptr b' \<noteq> 0" and "h_size b' = n"
  using assms
  by (auto simp: HostBuffer_resize_impl_def Let_def thenDo_eq_Inr
      dest: cudaHostAlloc_nonnull split: option.splits if_splits)

lemma PinnedBuffer_resize_impl_keep:
  "n \<le> p_capacity b \<Longrightarrow> PinnedBuffer_resize_impl sz n s c b st = Inr (b\<lparr>p_size := n\<rparr>, st)"
  by (simp add: PinnedBuffer_resize_impl_def)

lemma PinnedBuffer_resize_impl_grow:
  assumes "PinnedBuffer_resize_impl sz n s c b st = Inr (b', st')" and "p_capacity b < n"
  shows "grown_capacity n = Some (p_capacity b')" and "p_devptr b' \<noteq> 0"
    and "p_hostptr b' \<noteq> 0" and "p_size b' = n"
  using assms
  by (auto simp: PinnedBuffer_resize_impl_def Let_def thenDo_eq_Inr
      dest: cudaMalloc_nonnull cudaHostAlloc_nonnull split: option.splits if_splits)

section \<open>Every operation resizes or leaves the members alone\<close>

lemma DeviceBuffer_call_shape:
  assumes "DeviceBuffer_call sz op b st = Inr (b', st')"
  shows "b' = b \<or> (\<exists>n s c st1. DeviceBuffer_resize_impl sz n s c b st = Inr (b', st1))"
  using assms
  by (cases op)
    (auto simp: DeviceBuffer_resize_def DeviceBuffer_resize_anew_def DeviceBuffer_clearDevice_def
      DeviceBuffer_clear_def DeviceBuffer_copy_devPtr_def DeviceBuffer_copy_hostPtr_def
      DeviceBuffer_copy_def DeviceBuffer_copyFromDevice_def DeviceBuffer_copyFromHost_def
      thenDo_eq_Inr split: if_splits)

lemma HostBuffer_call_shape:
  assumes "HostBuffer_call sz op b st = Inr (b', st')"
  shows "b' = b \<or> (\<exists>n c st1. HostBuffer_resize_impl sz n c b st = Inr (b', st1))"
  using assms
  by (cases op)
    (auto simp: HostBuffer_resize_def HostBuffer_resize_anew_def HostBuffer_clear_def
      HostBuffer_copy_hostPtr_def HostBuffer_copy_devPtr_def HostBuffer_genericCopy_def
      HostBuffer_store_def Let_def thenDo_eq_Inr split: if_splits option.splits)

lemma PinnedBuffer_call_shape:
  assumes "PinnedBuffer_call sz op b st = Inr (b', st')"
  shows "b' = b \<or> (\<exists>n s c st1. PinnedBuffer_resize_impl sz n s c b st = Inr (b', st1))"
  using assms
  by (cases op)
    (auto simp: PinnedBuffer_resize_def PinnedBuffer_resize_anew_def
      PinnedBuffer_downloadFromDevice_def PinnedBuffer_uploadToDevice_def PinnedBuffer_clear_def
      PinnedBuffer_clearDevice_def PinnedBuffer_clearHost_def PinnedBuffer_copy_DeviceBuffer_def
      PinnedBuffer_copy_HostBuffer_def PinnedBuffer_copy_PinnedBuffer_def
      PinnedBuffer_copyDeviceOnly_def PinnedBuffer_copy_def PinnedBuffer_store_def
      thenDo_eq_Inr split: if_splits option.splits)

section \<open>The invariants\<close>









lemma ctor_zero:
  "DeviceBuffer_ctor sz 0 st = Inr (DeviceBuffer_init, st)"
  "HostBuffer_ctor sz 0 st = Inr (HostBuffer_init, st)"
  "PinnedBuffer_ctor sz 0 st = Inr (PinnedBuffer_init, st)"
  by (simp_all add: DeviceBuffer_ctor_def HostBuffer_ctor_def PinnedBuffer_ctor_def
      DeviceBuffer_resize_anew_def HostBuffer_resize_anew_def PinnedBuffer_resize_anew_def
      DeviceBuffer_resize_impl_def HostBuffer_resize_impl_def PinnedBuffer_resize_impl_def
      DeviceBuffer_init_def HostBuffer_init_def PinnedBuffer_init_def)


section \<open>Capacity\<close>

lemma DeviceBuffer_resize_impl_capacity:
  "DeviceBuffer_resize_impl sz n s c b st = Inr (b', st') \<Longrightarrow> d_capacity b \<le> d_capacity b'"
  using DeviceBuffer_resize_impl_grow(1) [of sz n s c b st b' st', THEN grown_capacity_ge]
  by (cases "n \<le> d_capacity b") (auto simp: DeviceBuffer_resize_impl_keep)

lemma HostBuffer_resize_impl_capacity:
  "HostBuffer_resize_impl sz n c b st = Inr (b', st') \<Longrightarrow> h_capacity b \<le> h_capacity b'"
  using HostBuffer_resize_impl_grow(1) [of sz n c b st b' st', THEN grown_capacity_ge]
  by (cases "n \<le> h_capacity b") (auto simp: HostBuffer_resize_impl_keep)

lemma PinnedBuffer_resize_impl_capacity:
  "PinnedBuffer_resize_impl sz n s c b st = Inr (b', st') \<Longrightarrow> p_capacity b \<le> p_capacity b'"
  using PinnedBuffer_resize_impl_grow(1) [of sz n s c b st b' st', THEN grown_capacity_ge]
  by (cases "n \<le> p_capacity b") (auto simp: PinnedBuffer_resize_impl_keep)

lemma DeviceBuffer_calls_capacity:
  "DeviceBuffer_calls sz ops b st = Inr (b', st') \<Longrightarrow> d_capacity b \<le> d_capacity b'"
proof (induction ops arbitrary: b st)
  case Nil
  then show ?case by simp
next
  case (Cons op ops)
  then obtain b1 st1 where 1: "DeviceBuffer_call sz op b st = Inr (b1, st1)"
    and 2: "DeviceBuffer_calls sz ops b1 st1 = Inr (b', st')"
    by (auto simp: thenDo_eq_Inr)
  from 1 have "d_capacity b \<le> d_capacity b1"
    by (auto dest!: DeviceBuffer_call_shape DeviceBuffer_resize_impl_capacity)
  with Cons.IH [OF 2] show ?case by simp
qed

lemma HostBuffer_calls_capacity:
  "HostBuffer_calls sz ops b st = Inr (b', st') \<Longrightarrow> h_capacity b \<le> h_capacity b'"
proof (induction ops arbitrary: b st)
  case Nil
  then show ?case by simp
next
  case (Cons op ops)
  then obtain b1 st1 where 1: "HostBuffer_call sz op b st = Inr (b1, st1)"
    and 2: "HostBuffer_calls sz ops b1 st1 = Inr (b', st')"
    by (auto simp: thenDo_eq_Inr)
  from 1 have "h_capacity b \<le> h_capacity b1"
    by (auto dest!: HostBuffer_call_shape HostBuffer_resize_impl_capacity)
  with Cons.IH [OF 2] show ?case by simp
qed

lemma PinnedBuffer_calls_capacity:
  "PinnedBuffer_calls sz ops b st = Inr (b', st') \<Longrightarrow> p_capacity b \<le> p_capacity b'"
proof (induction ops arbitrary: b st)
  case Nil
  then show ?case by simp
next
  case (Cons op ops)
  then obtain b1 st1 where 1: "PinnedBuffer_call sz op b st = Inr (b1, st1)"
    and 2: "PinnedBuffer_calls sz ops b1 st1 = Inr (b', st')"
    by (auto simp: thenDo_eq_Inr)
  from 1 have "p_capacity b \<le> p_capacity b1"
    by (auto dest!: PinnedBuffer_call_shape PinnedBuffer_resize_impl_capacity)
  with Cons.IH [OF 2] show ?case by simp
qed

lemma grown_capacity_formula:
  assumes "grown_capacity n = Some c"
  shows "\<exists>e. conservative_estimate n = Some e \<and> c = 128 * nat \<lceil>real e / 128\<rceil>"
  using assms by (auto elim!: grown_capacity_Some simp: align_up_ceiling)

lemmas eval_defs =
  DeviceBuffer_resize_def DeviceBuffer_resize_anew_def DeviceBuffer_resize_impl_def
  DeviceBuffer_init_def DeviceBuffer_ctor_def
  HostBuffer_resize_def HostBuffer_resize_anew_def HostBuffer_resize_impl_def
  HostBuffer_init_def HostBuffer_ctor_def
  PinnedBuffer_resize_def PinnedBuffer_resize_anew_def PinnedBuffer_resize_impl_def
  PinnedBuffer_init_def PinnedBuffer_ctor_def
  runtime_start_def grown_capacity_5 grown_capacity_340 cudaMalloc_def cudaFree_def
  cudaHostAlloc_def cudaFreeHost_def cudaMemcpyAsync_def cudaMemsetAsync_def cudaMemcpy_def
  cudaStreamSynchronize_def memcpy_def memset_def
  CUDA_Check_def logged_def Let_def drain_all_def drain_stream_def copy_cells_def
  zero_cells_def block_at_def put_block_def store_cells_def load_cells_def

section \<open>Memory\<close>

lemma block_at_put_block:
  "block_at m p = Some d \<Longrightarrow> block_at (put_block m p blk) q = (if q = p then Some blk else block_at m q)"
  by (auto simp: block_at_def put_block_def nth_list_update split: if_splits)


lemma store_cells_other:
  "store_cells m p off v = Some m' \<Longrightarrow> q \<noteq> p \<Longrightarrow> block_at m' q = block_at m q"
  by (auto simp: store_cells_def block_at_put_block split: option.splits if_splits)

section \<open>Enqueued work\<close>

lemma run_work_fields [simp]:
  "pending (run_work w st) = pending st" "calls (run_work w st) = calls st"
  "dfree (run_work w st) = dfree st" "hfree (run_work w st) = hfree st"
  by (cases w; cases "case w of Memcpy k _ _ _ \<Rightarrow> k | _ \<Rightarrow> cudaMemcpyDeviceToDevice";
      simp split: option.splits)+

lemma run_work_sticky: "sticky st \<Longrightarrow> sticky (run_work w st)"
  by (cases w; cases "case w of Memcpy k _ _ _ \<Rightarrow> k | _ \<Rightarrow> cudaMemcpyDeviceToDevice";
      simp split: option.splits)



lemma drain_stream_nil: "pending st = [] \<Longrightarrow> drain_stream s st = st"
  by (simp add: drain_stream_def)

lemma drain_stream_single:
  "pending st = [(s, w)] \<Longrightarrow> drain_stream s st = run_work w (st\<lparr>pending := []\<rparr>)"
  by (simp add: drain_stream_def)

lemma device_step_nil: "pending st = [] \<Longrightarrow> device_step s st = st"
  by (simp add: device_step_def)

lemma background_nil: "pending st = [] \<Longrightarrow> background g st = st"
  by (induction g) (simp_all add: background_def device_step_nil)

lemma background_single:
  assumes "pending st = [(s, w)]"
  shows "background g st = st \<or> background g st = run_work w (st\<lparr>pending := []\<rparr>)"
proof (induction g rule: rev_induct)
  case Nil
  then show ?case by (simp add: background_def)
next
  case (snoc x g)
  have step: "background (g @ [x]) st = device_step x (background g st)"
    by (simp add: background_def)
  from snoc show ?case
  proof
    assume "background g st = st"
    then show ?thesis
      unfolding step using assms by (simp add: device_step_def)
  next
    assume "background g st = run_work w (st\<lparr>pending := []\<rparr>)"
    then show ?thesis
      unfolding step by (simp add: device_step_nil)
  qed
qed

section \<open>Contents across a copy, an allocation and a release\<close>


lemma cells_of_zero [simp]: "cells_of m p 0 = Some []"
  by (simp add: cells_of_def)

lemma copy_cells_prefix:
  assumes "copy_cells srcm src dstm dst k = Some m" and "cells_of srcm src k = Some xs"
  shows "cells_of m dst k = Some xs"
  using assms
  by (auto simp: copy_cells_def cells_of_def load_cells_def block_at_put_block
      split: option.splits if_splits)







lemma logged_fields [simp]:
  "dmem (logged c st) = dmem st" "hmem (logged c st) = hmem st"
  "pending (logged c st) = pending st" "sticky (logged c st) = sticky st"
  "dfree (logged c st) = dfree st" "hfree (logged c st) = hfree st"
  by (simp_all add: logged_def)






section \<open>A transfer that has run\<close>

lemma run_upload:
  assumes "\<not> sticky (run_work (Memcpy cudaMemcpyHostToDevice dst src k) st)"
  obtains m where "copy_cells (hmem st) src (dmem st) dst k = Some m"
    and "dmem (run_work (Memcpy cudaMemcpyHostToDevice dst src k) st) = m"
    and "hmem (run_work (Memcpy cudaMemcpyHostToDevice dst src k) st) = hmem st"
  using assms by (cases "copy_cells (hmem st) src (dmem st) dst k") auto

lemma run_download:
  assumes "\<not> sticky (run_work (Memcpy cudaMemcpyDeviceToHost dst src k) st)"
  obtains m where "copy_cells (dmem st) src (hmem st) dst k = Some m"
    and "hmem (run_work (Memcpy cudaMemcpyDeviceToHost dst src k) st) = m"
    and "dmem (run_work (Memcpy cudaMemcpyDeviceToHost dst src k) st) = dmem st"
  using assms by (cases "copy_cells (dmem st) src (hmem st) dst k") auto

lemma synchronise_after_enqueue:
  assumes p: "pending st = [(s, w)]"
    and r: "cudaStreamSynchronize s (background g st) = Inr st'"
  shows "pending st' = [] \<and> \<not> sticky (run_work w st) \<and> dmem st' = dmem (run_work w st)
    \<and> hmem st' = hmem (run_work w st)"
proof -
  have eq: "\<And>t u. dmem t = dmem u \<Longrightarrow> hmem t = hmem u \<Longrightarrow> sticky t = sticky u \<Longrightarrow>
      dmem (run_work w t) = dmem (run_work w u) \<and> hmem (run_work w t) = hmem (run_work w u)
      \<and> sticky (run_work w t) = sticky (run_work w u)"
    by (cases w; cases "case w of Memcpy k _ _ _ \<Rightarrow> k | _ \<Rightarrow> cudaMemcpyDeviceToDevice")
      (simp_all split: option.splits)
  from background_single [OF p, of g] show ?thesis
  proof
    assume b: "background g st = st"
    have "drain_stream s (logged (Call_cudaStreamSynchronize s) st)
        = run_work w (logged (Call_cudaStreamSynchronize s) st\<lparr>pending := []\<rparr>)"
      using p by (intro drain_stream_single) simp
    with r b have st': "st' = run_work w (logged (Call_cudaStreamSynchronize s) st\<lparr>pending := []\<rparr>)"
      and ok: "\<not> sticky st'"
      by (auto simp: cudaStreamSynchronize_def CUDA_Check_eq_Inr)
    from eq [of "logged (Call_cudaStreamSynchronize s) st\<lparr>pending := []\<rparr>" st] ok
    show ?thesis by (simp add: st')
  next
    assume b: "background g st = run_work w (st\<lparr>pending := []\<rparr>)"
    then have "pending (logged (Call_cudaStreamSynchronize s) (background g st)) = []" by simp
    then have "drain_stream s (logged (Call_cudaStreamSynchronize s) (background g st))
        = logged (Call_cudaStreamSynchronize s) (background g st)"
      by (rule drain_stream_nil)
    with r have st': "st' = logged (Call_cudaStreamSynchronize s) (background g st)"
      and ok: "\<not> sticky st'"
      by (auto simp: cudaStreamSynchronize_def CUDA_Check_eq_Inr)
    from eq [of "st\<lparr>pending := []\<rparr>" st] ok
    show ?thesis by (simp add: st' b)
  qed
qed

lemma round_trip_synchronised:
  assumes q: "pending st = []"
    and v: "cells_of (hmem st) (p_hostptr b) (sz * p_size b) = Some v"
    and r: "round_trip sz stream True g1 g2 g3 b st = Inr r"
  shows "r = Some v"
proof (cases "p_size b = 0")
  case True
  with r v show ?thesis
    by (auto simp: round_trip_def PinnedBuffer_uploadToDevice_def PinnedBuffer_clearHost_def
        PinnedBuffer_downloadFromDevice_def thenDo_eq_Inr)
next
  case False
  then have pos: "0 < p_size b" by simp
  let ?k = "sz * p_size b"
  let ?up = "Memcpy cudaMemcpyHostToDevice (p_devptr b) (p_hostptr b) ?k"
  let ?down = "Memcpy cudaMemcpyDeviceToHost (p_hostptr b) (p_devptr b) ?k"
  from r pos obtain st2 st3 st4 st5 st6 where
    1: "cudaMemcpyAsync (p_devptr b) (p_hostptr b) ?k cudaMemcpyHostToDevice stream st = Inr st2"
    and 2: "cudaStreamSynchronize stream (background g1 st2) = Inr st3"
    and 3: "PinnedBuffer_clearHost sz b (background g2 st3) = Inr (b, st4)"
    and 4: "cudaMemcpyAsync (p_hostptr b) (p_devptr b) ?k cudaMemcpyDeviceToHost stream
        (background g3 st4) = Inr st5"
    and 5: "cudaStreamSynchronize stream st5 = Inr st6"
    and res: "r = cells_of (hmem st6) (p_hostptr b) ?k"
    by (auto simp: round_trip_def PinnedBuffer_uploadToDevice_def PinnedBuffer_clearHost_def
        PinnedBuffer_downloadFromDevice_def thenDo_eq_Inr split: if_splits)
  from 1 q have st2: "pending st2 = [(stream, ?up)]" "dmem st2 = dmem st" "hmem st2 = hmem st"
    by (auto simp: cudaMemcpyAsync_def CUDA_Check_eq_Inr)
  note s3 = synchronise_after_enqueue [OF st2(1) 2]
  from s3 have "\<not> sticky (run_work ?up st2)" by blast
  from run_upload [OF this] obtain m
    where m: "copy_cells (hmem st2) (p_hostptr b) (dmem st2) (p_devptr b) ?k = Some m"
      and up: "dmem (run_work ?up st2) = m" "hmem (run_work ?up st2) = hmem st2"
    by blast
  have st3: "dmem st3 = m" "hmem st3 = hmem st2" "pending st3 = []"
    using s3 unfolding up by blast+
  have dev: "cells_of m (p_devptr b) ?k = Some v"
    using m v unfolding st2 by (rule copy_cells_prefix)
  have bg2: "background g2 st3 = st3" using st3 by (intro background_nil)
  from 3 have st4: "dmem st4 = m" "pending st4 = []"
    using st3 by (auto simp: bg2 PinnedBuffer_clearHost_def memset_def thenDo_eq_Inr
        split: if_splits option.splits)
  have bg3: "background g3 st4 = st4" using st4 by (intro background_nil)
  from 4 st4 have st5: "pending st5 = [(stream, ?down)]" "dmem st5 = m" "hmem st5 = hmem st4"
    by (auto simp: bg3 cudaMemcpyAsync_def CUDA_Check_eq_Inr)
  have "background [] st5 = st5" by (simp add: background_def)
  with 5 have "cudaStreamSynchronize stream (background [] st5) = Inr st6" by simp
  note s6 = synchronise_after_enqueue [OF st5(1) this]
  from s6 have "\<not> sticky (run_work ?down st5)" by blast
  from run_download [OF this] obtain m'
    where m': "copy_cells (dmem st5) (p_devptr b) (hmem st5) (p_hostptr b) ?k = Some m'"
      and down: "hmem (run_work ?down st5) = m'"
    by blast
  have st6: "hmem st6 = m'" using s6 unfolding down by blast
  have "cells_of m' (p_hostptr b) ?k = Some v"
    using m' dev unfolding st5 by (rule copy_cells_prefix)
  then show ?thesis by (simp add: res st6)
qed

lemmas trip_defs =
  round_trip_def PinnedBuffer_uploadToDevice_def PinnedBuffer_clearHost_def
  PinnedBuffer_downloadFromDevice_def PinnedBuffer_store_def background_def device_step_def
  cells_of_def

lemma replicate_4: "replicate 4 x = [x, x, x, x]"
  by (simp add: eval_nat_numeral)

section \<open>The generic copy\<close>






section \<open>The copy from a host buffer into a dual buffer\<close>






section \<open>The runtime calls an operation makes\<close>

lemma fold_run_work_calls: "calls (fold (\<lambda>q. run_work (snd q)) qs st) = calls st"
  by (induction qs arbitrary: st) simp_all

lemma drain_calls [simp]:
  "calls (drain_all st) = calls st" "calls (drain_stream s st) = calls st"
  by (simp_all add: drain_all_def drain_stream_def fold_run_work_calls)


















section \<open>The claims\<close>





text \<open>
  C3 (amended). A resize, discarding or preserving, of any of the three containers to a
  size \<open>n\<close> above the capacity sets the capacity to \<open>128 * ceil(e / 128)\<close>, where \<open>e\<close> is
  \<open>ceil(1.1 * n + 10)\<close> as the code evaluates it, in double precision; the value is at
  least \<open>n\<close> and a multiple of 128 whatever the element size, and the three containers
  use the same formula.
\<close>

theorem grown_capacity_of_resize:
  "(d_capacity db < n \<longrightarrow> DeviceBuffer_resize_impl dsz n s c db dst = Inr (db', dst') \<longrightarrow>
      (\<exists>e. conservative_estimate n = Some e \<and> d_capacity db' = 128 * nat \<lceil>real e / 128\<rceil>)
      \<and> n \<le> d_capacity db' \<and> 128 dvd d_capacity db')
   \<and> (h_capacity hb < n \<longrightarrow> HostBuffer_resize_impl hsz n c hb hst = Inr (hb', hst') \<longrightarrow>
      (\<exists>e. conservative_estimate n = Some e \<and> h_capacity hb' = 128 * nat \<lceil>real e / 128\<rceil>)
      \<and> n \<le> h_capacity hb' \<and> 128 dvd h_capacity hb')
   \<and> (p_capacity pb < n \<longrightarrow> PinnedBuffer_resize_impl psz n s c pb pst = Inr (pb', pst') \<longrightarrow>
      (\<exists>e. conservative_estimate n = Some e \<and> p_capacity pb' = 128 * nat \<lceil>real e / 128\<rceil>)
      \<and> n \<le> p_capacity pb' \<and> 128 dvd p_capacity pb')"
proof (intro conjI impI)
  assume "d_capacity db < n" "DeviceBuffer_resize_impl dsz n s c db dst = Inr (db', dst')"
  then have g: "grown_capacity n = Some (d_capacity db')"
    by (rule DeviceBuffer_resize_impl_grow(1) [rotated])
  from g show "\<exists>e. conservative_estimate n = Some e \<and> d_capacity db' = 128 * nat \<lceil>real e / 128\<rceil>"
    by (rule grown_capacity_formula)
  from g show "n \<le> d_capacity db'" by (rule grown_capacity_ge)
  from g show "128 dvd d_capacity db'" by (rule grown_capacity_dvd)
next
  assume "h_capacity hb < n" "HostBuffer_resize_impl hsz n c hb hst = Inr (hb', hst')"
  then have g: "grown_capacity n = Some (h_capacity hb')"
    by (rule HostBuffer_resize_impl_grow(1) [rotated])
  from g show "\<exists>e. conservative_estimate n = Some e \<and> h_capacity hb' = 128 * nat \<lceil>real e / 128\<rceil>"
    by (rule grown_capacity_formula)
  from g show "n \<le> h_capacity hb'" by (rule grown_capacity_ge)
  from g show "128 dvd h_capacity hb'" by (rule grown_capacity_dvd)
next
  assume "p_capacity pb < n" "PinnedBuffer_resize_impl psz n s c pb pst = Inr (pb', pst')"
  then have g: "grown_capacity n = Some (p_capacity pb')"
    by (rule PinnedBuffer_resize_impl_grow(1) [rotated])
  from g show "\<exists>e. conservative_estimate n = Some e \<and> p_capacity pb' = 128 * nat \<lceil>real e / 128\<rceil>"
    by (rule grown_capacity_formula)
  from g show "n \<le> p_capacity pb'" by (rule grown_capacity_ge)
  from g show "128 dvd p_capacity pb'" by (rule grown_capacity_dvd)
qed

theorem grown_capacity_of_resize_witness:
  "d_capacity DeviceBuffer_init < 340
   \<and> map_sum id fst (DeviceBuffer_resize_impl 4 340 0 True DeviceBuffer_init (runtime_start 4096 4096))
       = Inr \<lparr>d_capacity = 512, d_size = 340, d_devptr = 1\<rparr>
   \<and> h_capacity HostBuffer_init < 340
   \<and> map_sum id fst (HostBuffer_resize_impl 4 340 True HostBuffer_init (runtime_start 4096 4096))
       = Inr \<lparr>h_capacity = 512, h_size = 340, h_hostptr = 1\<rparr>
   \<and> p_capacity PinnedBuffer_init < 340
   \<and> map_sum id fst (PinnedBuffer_resize_impl 4 340 0 True PinnedBuffer_init (runtime_start 4096 4096))
       = Inr \<lparr>p_capacity = 512, p_size = 340, p_hostptr = 1, p_devptr = 1\<rparr>
   \<and> conservative_estimate 340 = Some 385
   \<and> (512 :: nat) = 128 * nat \<lceil>real 385 / 128\<rceil> \<and> (340 :: nat) \<le> 512 \<and> (128 :: nat) dvd 512"
proof -
  let ?st = "runtime_start 4096 4096"
  obtain s1 where 1: "DeviceBuffer_resize_impl 4 340 0 True DeviceBuffer_init ?st
      = Inr (\<lparr>d_capacity = 512, d_size = 340, d_devptr = 1\<rparr>, s1)"
    by (simp add: eval_defs)
  obtain s2 where 2: "HostBuffer_resize_impl 4 340 True HostBuffer_init ?st
      = Inr (\<lparr>h_capacity = 512, h_size = 340, h_hostptr = 1\<rparr>, s2)"
    by (simp add: eval_defs)
  obtain s3 where 3: "PinnedBuffer_resize_impl 4 340 0 True PinnedBuffer_init ?st
      = Inr (\<lparr>p_capacity = 512, p_size = 340, p_hostptr = 1, p_devptr = 1\<rparr>, s3)"
    by (simp add: eval_defs)
  have lt: "d_capacity DeviceBuffer_init < 340" "h_capacity HostBuffer_init < 340"
    "p_capacity PinnedBuffer_init < 340"
    by (simp_all add: DeviceBuffer_init_def HostBuffer_init_def PinnedBuffer_init_def)
  note T = grown_capacity_of_resize [where db = DeviceBuffer_init and n = 340 and dsz = 4
      and s = 0 and c = True and dst = ?st
      and db' = "\<lparr>d_capacity = 512, d_size = 340, d_devptr = 1\<rparr>" and dst' = s1
      and hb = HostBuffer_init and hsz = 4 and hst = ?st
      and hb' = "\<lparr>h_capacity = 512, h_size = 340, h_hostptr = 1\<rparr>" and hst' = s2
      and pb = PinnedBuffer_init and psz = 4 and pst = ?st
      and pb' = "\<lparr>p_capacity = 512, p_size = 340, p_hostptr = 1, p_devptr = 1\<rparr>" and pst' = s3]
  have "(340 :: nat) \<le> 512 \<and> (128 :: nat) dvd 512"
    using T 1 lt(1) by simp
  then show ?thesis
    unfolding 1 2 3 using lt by (simp add: conservative_estimate_340)
qed

text \<open>
  Read in exact arithmetic the formula fails at \<open>n = 340\<close>: \<open>1.1 * 340 + 10\<close> is \<open>384\<close>, a
  multiple of 128, while the code rounds to \<open>384.00000000000006\<close>, takes the ceiling
  \<open>385\<close> and allocates 512 elements.
\<close>

theorem exact_formula_counterexample:
  "d_capacity DeviceBuffer_init < 340
   \<and> DeviceBuffer_resize 4 340 0 DeviceBuffer_init (runtime_start 4096 4096)
       = Inr (\<lparr>d_capacity = 512, d_size = 340, d_devptr = 1\<rparr>,
              \<lparr>dmem = [Some (replicate 2048 None)], hmem = [], dfree = 2048, hfree = 4096,
               pending = [], sticky = False, calls = [Call_cudaMalloc, Call_cudaFree]\<rparr>)
   \<and> (512 :: nat) \<noteq> 128 * nat \<lceil>real_of_int \<lceil>(11 / 10 :: real) * 340 + 10\<rceil> / 128\<rceil>"
  by (simp add: eval_defs)

text \<open>
  C4. A resize to a size within the capacity changes the size and nothing else: the
  capacity, the pointers and the runtime (no call is made) stay as they are. Over any
  sequence of operations, hence of resize calls, the capacity never decreases.
\<close>

theorem capacity_never_shrinks:
  "(n \<le> d_capacity db \<longrightarrow>
      DeviceBuffer_resize_impl sz n s c db st = Inr (db\<lparr>d_size := n\<rparr>, st))
   \<and> (n \<le> h_capacity hb \<longrightarrow>
      HostBuffer_resize_impl sz n c hb st = Inr (hb\<lparr>h_size := n\<rparr>, st))
   \<and> (n \<le> p_capacity pb \<longrightarrow>
      PinnedBuffer_resize_impl sz n s c pb st = Inr (pb\<lparr>p_size := n\<rparr>, st))
   \<and> (DeviceBuffer_calls dsz dops db dst = Inr (db', dst') \<longrightarrow> d_capacity db \<le> d_capacity db')
   \<and> (HostBuffer_calls hsz hops hb hst = Inr (hb', hst') \<longrightarrow> h_capacity hb \<le> h_capacity hb')
   \<and> (PinnedBuffer_calls psz pops pb pst = Inr (pb', pst') \<longrightarrow> p_capacity pb \<le> p_capacity pb')"
  using DeviceBuffer_calls_capacity [of dsz dops db dst db' dst']
    HostBuffer_calls_capacity [of hsz hops hb hst hb' hst']
    PinnedBuffer_calls_capacity [of psz pops pb pst pb' pst']
  by (simp add: DeviceBuffer_resize_impl_keep HostBuffer_resize_impl_keep
      PinnedBuffer_resize_impl_keep)

theorem capacity_never_shrinks_witness:
  "map_sum id fst (DeviceBuffer_calls 4 [D_resize 340 0, D_resize_anew 2, D_resize 5 7]
      \<lparr>d_capacity = 128, d_size = 5, d_devptr = 1\<rparr>
      \<lparr>dmem = [Some (replicate 512 None)], hmem = [], dfree = 4096, hfree = 4096,
       pending = [], sticky = False, calls = []\<rparr>)
     = Inr \<lparr>d_capacity = 512, d_size = 5, d_devptr = 2\<rparr>
   \<and> map_sum id fst (HostBuffer_calls 4 [H_resize 340, H_resize_anew 2, H_resize 5]
      \<lparr>h_capacity = 128, h_size = 5, h_hostptr = 1\<rparr>
      \<lparr>dmem = [], hmem = [Some (replicate 512 None)], dfree = 4096, hfree = 4096,
       pending = [], sticky = False, calls = []\<rparr>)
     = Inr \<lparr>h_capacity = 512, h_size = 5, h_hostptr = 2\<rparr>
   \<and> map_sum id fst (PinnedBuffer_calls 4 [P_resize 340 0, P_resize_anew 2, P_resize 5 7]
      \<lparr>p_capacity = 128, p_size = 5, p_hostptr = 1, p_devptr = 1\<rparr>
      \<lparr>dmem = [Some (replicate 512 None)], hmem = [Some (replicate 512 None)], dfree = 4096,
       hfree = 4096, pending = [], sticky = False, calls = []\<rparr>)
     = Inr \<lparr>p_capacity = 512, p_size = 5, p_hostptr = 2, p_devptr = 2\<rparr>
   \<and> (128 :: nat) \<le> 512
   \<and> (2 :: nat) \<le> 128
   \<and> DeviceBuffer_resize_impl 4 2 0 False \<lparr>d_capacity = 128, d_size = 5, d_devptr = 1\<rparr>
        (runtime_start 0 0)
       = Inr (\<lparr>d_capacity = 128, d_size = 2, d_devptr = 1\<rparr>, runtime_start 0 0)"
proof -
  let ?db = "\<lparr>d_capacity = 128, d_size = 5, d_devptr = 1\<rparr>"
  let ?hb = "\<lparr>h_capacity = 128, h_size = 5, h_hostptr = 1\<rparr>"
  let ?pb = "\<lparr>p_capacity = 128, p_size = 5, p_hostptr = 1, p_devptr = 1\<rparr>"
  let ?dst = "\<lparr>dmem = [Some (replicate 512 None)], hmem = [], dfree = 4096, hfree = 4096,
       pending = [], sticky = False, calls = []\<rparr>"
  let ?hst = "\<lparr>dmem = [], hmem = [Some (replicate 512 None)], dfree = 4096, hfree = 4096,
       pending = [], sticky = False, calls = []\<rparr>"
  let ?pst = "\<lparr>dmem = [Some (replicate 512 None)], hmem = [Some (replicate 512 None)], dfree = 4096,
       hfree = 4096, pending = [], sticky = False, calls = []\<rparr>"
  obtain s1 where 1: "DeviceBuffer_calls 4 [D_resize 340 0, D_resize_anew 2, D_resize 5 7] ?db ?dst
      = Inr (\<lparr>d_capacity = 512, d_size = 5, d_devptr = 2\<rparr>, s1)"
    by (simp add: eval_defs)
  obtain s2 where 2: "HostBuffer_calls 4 [H_resize 340, H_resize_anew 2, H_resize 5] ?hb ?hst
      = Inr (\<lparr>h_capacity = 512, h_size = 5, h_hostptr = 2\<rparr>, s2)"
    by (simp add: eval_defs)
  obtain s3 where 3: "PinnedBuffer_calls 4 [P_resize 340 0, P_resize_anew 2, P_resize 5 7] ?pb ?pst
      = Inr (\<lparr>p_capacity = 512, p_size = 5, p_hostptr = 2, p_devptr = 2\<rparr>, s3)"
    by (simp add: eval_defs)
  note T = capacity_never_shrinks [where n = 2 and db = ?db and sz = 4 and s = 0 and c = False
      and st = "runtime_start 0 0" and hb = ?hb and pb = ?pb
      and dsz = 4 and dops = "[D_resize 340 0, D_resize_anew 2, D_resize 5 7]" and dst = ?dst
      and db' = "\<lparr>d_capacity = 512, d_size = 5, d_devptr = 2\<rparr>" and dst' = s1
      and hsz = 4 and hops = "[H_resize 340, H_resize_anew 2, H_resize 5]" and hst = ?hst
      and hb' = "\<lparr>h_capacity = 512, h_size = 5, h_hostptr = 2\<rparr>" and hst' = s2
      and psz = 4 and pops = "[P_resize 340 0, P_resize_anew 2, P_resize 5 7]" and pst = ?pst
      and pb' = "\<lparr>p_capacity = 512, p_size = 5, p_hostptr = 2, p_devptr = 2\<rparr>" and pst' = s3]
  have a: "DeviceBuffer_resize_impl 4 2 0 False ?db (runtime_start 0 0)
       = Inr (\<lparr>d_capacity = 128, d_size = 2, d_devptr = 1\<rparr>, runtime_start 0 0)"
    using T by simp
  show ?thesis
    unfolding 1 2 3 a by simp
qed

text \<open>
  C5. After \<open>B = std::move(A)\<close> for two distinct objects, and after the move constructor,
  \<open>A\<close> has size 0, capacity 0 and null pointers, and \<open>B\<close> has the members \<open>A\<close> had. \<open>A\<close> is
  then what the constructor with size 0 returns, so every later operation on it is an
  operation on a fresh empty container; destroying it releases nothing (the memory
  tables stay as they are).
\<close>

theorem moved_from_is_empty:
  "(DeviceBuffer_move_assign False dt ds dst = Inr (dt', ds', dst') \<longrightarrow>
      dt' = ds \<and> d_size ds' = 0 \<and> d_capacity ds' = 0 \<and> d_devptr ds' = 0
      \<and> DeviceBuffer_ctor sz 0 dst' = Inr (ds', dst') \<and> DeviceBuffer_dtor ds' dst' = Inr dst')
   \<and> (HostBuffer_move_assign False ht hs hst = Inr (ht', hs', hst') \<longrightarrow>
      ht' = hs \<and> h_size hs' = 0 \<and> h_capacity hs' = 0 \<and> h_hostptr hs' = 0
      \<and> HostBuffer_ctor sz 0 hst' = Inr (hs', hst')
      \<and> HostBuffer_dtor hs' hst' = CUDA_Check (logged Call_cudaFreeHost hst')
      \<and> hmem (logged Call_cudaFreeHost hst') = hmem hst'
      \<and> dmem (logged Call_cudaFreeHost hst') = dmem hst')
   \<and> (PinnedBuffer_move_assign False pt ps pst = Inr (pt', ps', pst') \<longrightarrow>
      pt' = ps \<and> p_size ps' = 0 \<and> p_capacity ps' = 0 \<and> p_hostptr ps' = 0 \<and> p_devptr ps' = 0
      \<and> PinnedBuffer_ctor sz 0 pst' = Inr (ps', pst') \<and> PinnedBuffer_dtor ps' pst' = Inr pst')
   \<and> DeviceBuffer_move_ctor ds st = Inr (ds, DeviceBuffer_init, st)
   \<and> HostBuffer_move_ctor hs st = Inr (hs, HostBuffer_init, st)
   \<and> PinnedBuffer_move_ctor ps st = Inr (ps, PinnedBuffer_init, st)"
  by (auto simp: DeviceBuffer_move_assign_def HostBuffer_move_assign_def
      PinnedBuffer_move_assign_def DeviceBuffer_move_ctor_def HostBuffer_move_ctor_def
      PinnedBuffer_move_ctor_def DeviceBuffer_init_def HostBuffer_init_def PinnedBuffer_init_def
      DeviceBuffer_dtor_def HostBuffer_dtor_def PinnedBuffer_dtor_def cudaFreeHost_def
      logged_def thenDo_eq_Inr ctor_zero [unfolded DeviceBuffer_init_def HostBuffer_init_def
        PinnedBuffer_init_def] split: if_splits)

theorem moved_from_is_empty_witness:
  "DeviceBuffer_move_assign False \<lparr>d_capacity = 128, d_size = 5, d_devptr = 1\<rparr>
      \<lparr>d_capacity = 128, d_size = 3, d_devptr = 2\<rparr>
      \<lparr>dmem = [Some (replicate 512 None), Some (replicate 512 (Some 7))], hmem = [],
       dfree = 0, hfree = 0, pending = [], sticky = False, calls = []\<rparr>
     = Inr (\<lparr>d_capacity = 128, d_size = 3, d_devptr = 2\<rparr>,
            \<lparr>d_capacity = 0, d_size = 0, d_devptr = 0\<rparr>,
            \<lparr>dmem = [None, Some (replicate 512 (Some 7))], hmem = [],
             dfree = 512, hfree = 0, pending = [], sticky = False, calls = [Call_cudaFree]\<rparr>)
   \<and> DeviceBuffer_dtor \<lparr>d_capacity = 0, d_size = 0, d_devptr = 0\<rparr>
        \<lparr>dmem = [None, Some (replicate 512 (Some 7))], hmem = [],
         dfree = 512, hfree = 0, pending = [], sticky = False, calls = [Call_cudaFree]\<rparr>
     = Inr \<lparr>dmem = [None, Some (replicate 512 (Some 7))], hmem = [],
            dfree = 512, hfree = 0, pending = [], sticky = False, calls = [Call_cudaFree]\<rparr>
   \<and> HostBuffer_move_assign False HostBuffer_init \<lparr>h_capacity = 128, h_size = 3, h_hostptr = 1\<rparr>
        (runtime_start 0 0)
     = Inr (\<lparr>h_capacity = 128, h_size = 3, h_hostptr = 1\<rparr>,
            \<lparr>h_capacity = 0, h_size = 0, h_hostptr = 0\<rparr>, runtime_start 0 0)
   \<and> HostBuffer_ctor 4 0 (runtime_start 0 0)
     = Inr (\<lparr>h_capacity = 0, h_size = 0, h_hostptr = 0\<rparr>, runtime_start 0 0)
   \<and> PinnedBuffer_move_assign False \<lparr>p_capacity = 128, p_size = 5, p_hostptr = 1, p_devptr = 1\<rparr>
        \<lparr>p_capacity = 128, p_size = 3, p_hostptr = 2, p_devptr = 2\<rparr> (runtime_start 0 0)
     = Inr (\<lparr>p_capacity = 128, p_size = 3, p_hostptr = 2, p_devptr = 2\<rparr>,
            \<lparr>p_capacity = 0, p_size = 0, p_hostptr = 0, p_devptr = 0\<rparr>, runtime_start 0 0)
   \<and> PinnedBuffer_dtor \<lparr>p_capacity = 0, p_size = 0, p_hostptr = 0, p_devptr = 0\<rparr>
        (runtime_start 0 0) = Inr (runtime_start 0 0)"
proof -
  let ?dst = "\<lparr>dmem = [Some (replicate 512 None), Some (replicate 512 (Some 7))], hmem = [],
       dfree = 0, hfree = 0, pending = [], sticky = False, calls = []\<rparr>"
  let ?dst' = "\<lparr>dmem = [None, Some (replicate 512 (Some 7))], hmem = [],
       dfree = 512, hfree = 0, pending = [], sticky = False, calls = [Call_cudaFree]\<rparr>"
  let ?d0 = "\<lparr>d_capacity = 0, d_size = 0, d_devptr = 0\<rparr>"
  let ?h0 = "\<lparr>h_capacity = 0, h_size = 0, h_hostptr = 0\<rparr>"
  let ?p0 = "\<lparr>p_capacity = 0, p_size = 0, p_hostptr = 0, p_devptr = 0\<rparr>"
  have 1: "DeviceBuffer_move_assign False \<lparr>d_capacity = 128, d_size = 5, d_devptr = 1\<rparr>
      \<lparr>d_capacity = 128, d_size = 3, d_devptr = 2\<rparr> ?dst
     = Inr (\<lparr>d_capacity = 128, d_size = 3, d_devptr = 2\<rparr>, ?d0, ?dst')"
    by (simp add: DeviceBuffer_move_assign_def eval_defs)
  have 2: "HostBuffer_move_assign False HostBuffer_init \<lparr>h_capacity = 128, h_size = 3, h_hostptr = 1\<rparr>
        (runtime_start 0 0)
     = Inr (\<lparr>h_capacity = 128, h_size = 3, h_hostptr = 1\<rparr>, ?h0, runtime_start 0 0)"
    by (simp add: HostBuffer_move_assign_def HostBuffer_init_def)
  have 3: "PinnedBuffer_move_assign False \<lparr>p_capacity = 128, p_size = 5, p_hostptr = 1, p_devptr = 1\<rparr>
        \<lparr>p_capacity = 128, p_size = 3, p_hostptr = 2, p_devptr = 2\<rparr> (runtime_start 0 0)
     = Inr (\<lparr>p_capacity = 128, p_size = 3, p_hostptr = 2, p_devptr = 2\<rparr>, ?p0, runtime_start 0 0)"
    by (simp add: PinnedBuffer_move_assign_def)
  note T = moved_from_is_empty [where dt = "\<lparr>d_capacity = 128, d_size = 5, d_devptr = 1\<rparr>"
      and ds = "\<lparr>d_capacity = 128, d_size = 3, d_devptr = 2\<rparr>" and dst = ?dst
      and dt' = "\<lparr>d_capacity = 128, d_size = 3, d_devptr = 2\<rparr>" and ds' = ?d0 and dst' = ?dst'
      and ht = HostBuffer_init and hs = "\<lparr>h_capacity = 128, h_size = 3, h_hostptr = 1\<rparr>"
      and hst = "runtime_start 0 0" and ht' = "\<lparr>h_capacity = 128, h_size = 3, h_hostptr = 1\<rparr>"
      and hs' = ?h0 and hst' = "runtime_start 0 0"
      and pt = "\<lparr>p_capacity = 128, p_size = 5, p_hostptr = 1, p_devptr = 1\<rparr>"
      and ps = "\<lparr>p_capacity = 128, p_size = 3, p_hostptr = 2, p_devptr = 2\<rparr>"
      and pst = "runtime_start 0 0"
      and pt' = "\<lparr>p_capacity = 128, p_size = 3, p_hostptr = 2, p_devptr = 2\<rparr>"
      and ps' = ?p0 and pst' = "runtime_start 0 0" and sz = 4 and st = "runtime_start 0 0"]
  have a: "DeviceBuffer_dtor ?d0 ?dst' = Inr ?dst'" using T 1 by blast
  have b: "HostBuffer_ctor 4 0 (runtime_start 0 0) = Inr (?h0, runtime_start 0 0)" using T 2 by blast
  have c: "PinnedBuffer_dtor ?p0 (runtime_start 0 0) = Inr (runtime_start 0 0)" using T 3 by blast
  from 1 2 3 a b c show ?thesis by blast
qed



text \<open>
  C7 (amended). For a dual buffer whose host side holds \<open>v\<close>, with no work in flight:
  \<open>uploadToDevice\<close>, a synchronisation of the stream, \<open>clearHost\<close> and
  \<open>downloadFromDevice\<close> with the synchronous flag leave the host side equal to \<open>v\<close>,
  whatever the device runs by itself in between. The upload is only enqueued, so it is
  the synchronisation that makes it read the host side before \<open>clearHost\<close> zeroes it.
\<close>

theorem round_trip_restores_host:
  "pending st = [] \<longrightarrow> cells_of (hmem st) (p_hostptr b) (sz * p_size b) = Some v \<longrightarrow>
   round_trip sz stream True g1 g2 g3 b st = Inr r \<longrightarrow> r = Some v"
  using round_trip_synchronised [of st b sz v stream g1 g2 g3 r] by blast

theorem round_trip_restores_host_witness:
  "PinnedBuffer_fill 2 0 [[Some 1, Some 2], [Some 3, Some 4]]
      \<lparr>p_capacity = 2, p_size = 2, p_hostptr = 1, p_devptr = 1\<rparr>
      \<lparr>dmem = [Some [None, None, None, None]], hmem = [Some [None, None, None, None]],
       dfree = 0, hfree = 0, pending = [], sticky = False, calls = []\<rparr>
     = Inr (\<lparr>p_capacity = 2, p_size = 2, p_hostptr = 1, p_devptr = 1\<rparr>,
            \<lparr>dmem = [Some [None, None, None, None]], hmem = [Some [Some 1, Some 2, Some 3, Some 4]],
             dfree = 0, hfree = 0, pending = [], sticky = False, calls = []\<rparr>)
   \<and> round_trip 2 0 True [0] [] [5] \<lparr>p_capacity = 2, p_size = 2, p_hostptr = 1, p_devptr = 1\<rparr>
        \<lparr>dmem = [Some [None, None, None, None]], hmem = [Some [Some 1, Some 2, Some 3, Some 4]],
         dfree = 0, hfree = 0, pending = [], sticky = False, calls = []\<rparr>
     = Inr (Some [Some 1, Some 2, Some 3, Some 4])"
proof -
  let ?pb = "\<lparr>p_capacity = 2, p_size = 2, p_hostptr = 1, p_devptr = 1\<rparr>"
  let ?st0 = "\<lparr>dmem = [Some [None, None, None, None]], hmem = [Some [None, None, None, None]],
       dfree = 0, hfree = 0, pending = [], sticky = False, calls = []\<rparr>"
  let ?st1 = "\<lparr>dmem = [Some [None, None, None, None]], hmem = [Some [Some 1, Some 2, Some 3, Some 4]],
       dfree = 0, hfree = 0, pending = [], sticky = False, calls = []\<rparr>"
  let ?v = "[Some 1, Some 2, Some 3, Some 4] :: cell list"
  have 1: "PinnedBuffer_fill 2 0 [[Some 1, Some 2], [Some 3, Some 4]] ?pb ?st0 = Inr (?pb, ?st1)"
    by (simp add: trip_defs eval_defs)
  obtain r where 2: "round_trip 2 0 True [0] [] [5] ?pb ?st1 = Inr r"
    by (simp add: trip_defs eval_defs)
  have 3: "cells_of (hmem ?st1) (p_hostptr ?pb) (2 * p_size ?pb) = Some ?v"
    by (simp add: trip_defs eval_defs)
  have "r = Some ?v"
    using round_trip_restores_host [of ?st1 ?pb 2 ?v 0 "[0]" "[]" "[5]" r] 2 3 by simp
  with 1 2 show ?thesis by simp
qed

text \<open>
  Without the synchronisation, on a device that runs the upload only when the download
  forces it, the upload reads the host side after \<open>clearHost\<close>: the host side ends as
  zeros.
\<close>

theorem round_trip_counterexample:
  "PinnedBuffer_fill 2 0 [[Some 1, Some 2], [Some 3, Some 4]]
      \<lparr>p_capacity = 2, p_size = 2, p_hostptr = 1, p_devptr = 1\<rparr>
      \<lparr>dmem = [Some [None, None, None, None]], hmem = [Some [None, None, None, None]],
       dfree = 0, hfree = 0, pending = [], sticky = False, calls = []\<rparr>
     = Inr (\<lparr>p_capacity = 2, p_size = 2, p_hostptr = 1, p_devptr = 1\<rparr>,
            \<lparr>dmem = [Some [None, None, None, None]], hmem = [Some [Some 1, Some 2, Some 3, Some 4]],
             dfree = 0, hfree = 0, pending = [], sticky = False, calls = []\<rparr>)
   \<and> round_trip 2 0 False [] [] [] \<lparr>p_capacity = 2, p_size = 2, p_hostptr = 1, p_devptr = 1\<rparr>
        \<lparr>dmem = [Some [None, None, None, None]], hmem = [Some [Some 1, Some 2, Some 3, Some 4]],
         dfree = 0, hfree = 0, pending = [], sticky = False, calls = []\<rparr>
     = Inr (Some [Some 0, Some 0, Some 0, Some 0])
   \<and> [Some 0, Some 0, Some 0, Some 0] \<noteq> [Some 1, Some 2, Some 3, Some (4 :: byte)]"
  by (simp add: trip_defs eval_defs replicate_4)










end
